theory Spec2Isabelle
  imports Complex_Main
begin

section \<open>Python values, exceptions and dictionaries\<close>

text \<open>
  Python numbers (\<open>int\<close> and \<open>float\<close> alike) are modelled as exact reals: rounding,
  infinities and NaN of IEEE floats are outside the model. The ABC classification, whose
  categories and order turn on rounding, is given a second time with the arithmetic of
  the interpreter as a parameter. An exception is a value:
  every operation that can raise returns \<open>py_error + 'a\<close>, with \<open>Inl\<close> the exception.
  The message of a \<open>ValueError\<close> is kept; the one message built with an f-string
  (in \<open>Inventory.remove_stock\<close>) keeps the two numbers it formats.
\<close>

datatype message = Text string | Cannot_remove real real

datatype py_error = ValueError message | ZeroDivisionError | KeyError

type_synonym 'a result = "py_error + 'a"

definition and_then :: "'a result \<Rightarrow> ('a \<Rightarrow> 'b result) \<Rightarrow> 'b result" where
  "and_then r f = (case r of Inl e \<Rightarrow> Inl e | Inr x \<Rightarrow> f x)"

text \<open>\<open>a / b\<close>: true division raises \<open>ZeroDivisionError\<close> on a zero divisor.\<close>

definition py_truediv :: "real \<Rightarrow> real \<Rightarrow> real result" where
  "py_truediv a b = (if b = 0 then Inl ZeroDivisionError else Inr (a / b))"

text \<open>\<open>math.sqrt(x)\<close>: raises \<open>ValueError\<close> on a negative argument.\<close>

definition math_sqrt :: "real \<Rightarrow> real result" where
  "math_sqrt x = (if x < 0 then Inl (ValueError (Text ''math domain error'')) else Inr (sqrt x))"

text \<open>
  A \<open>dict\<close> is an association list in insertion order. \<open>d[k] = v\<close> overwrites the value
  of a key already present (keeping its position) and appends a new key otherwise.
\<close>

type_synonym ('k, 'v) dict = "('k \<times> 'v) list"

fun dict_setitem :: "'k \<Rightarrow> 'v \<Rightarrow> ('k, 'v) dict \<Rightarrow> ('k, 'v) dict" where
  "dict_setitem k v [] = [(k, v)]"
| "dict_setitem k v ((k', v') # d) =
     (if k' = k then (k, v) # d else (k', v') # dict_setitem k v d)"

text \<open>\<open>d[k]\<close>: raises \<open>KeyError\<close> on a missing key.\<close>

definition dict_getitem :: "('k, 'v) dict \<Rightarrow> 'k \<Rightarrow> 'v result" where
  "dict_getitem d k = (case map_of d k of None \<Rightarrow> Inl KeyError | Some v \<Rightarrow> Inr v)"

text \<open>
  \<open>min(xs, key=f)\<close>: the first element is the candidate, a later element replaces it
  only when its key is strictly smaller; the empty sequence raises \<open>ValueError\<close>.
\<close>

fun min_from :: "('a \<Rightarrow> real) \<Rightarrow> 'a \<Rightarrow> 'a list \<Rightarrow> 'a" where
  "min_from f best [] = best"
| "min_from f best (x # xs) = min_from f (if f x < f best then x else best) xs"

fun py_min :: "('a \<Rightarrow> real) \<Rightarrow> 'a list \<Rightarrow> 'a result" where
  "py_min f [] = Inl (ValueError (Text ''min() arg is an empty sequence''))"
| "py_min f (x # xs) = Inr (min_from f x xs)"

section \<open>algorithms.py\<close>

subsection \<open>EOQAlgorithm\<close>

definition EOQAlgorithm_calculate :: "real \<Rightarrow> real \<Rightarrow> real \<Rightarrow> real result" where
  "EOQAlgorithm_calculate annual_demand ordering_cost holding_cost =
     (if annual_demand \<le> 0 then Inl (ValueError (Text ''Annual demand must be positive''))
      else if ordering_cost < 0 then Inl (ValueError (Text ''Ordering cost cannot be negative''))
      else if holding_cost \<le> 0 then Inl (ValueError (Text ''Holding cost must be positive''))
      else and_then (py_truediv (2 * annual_demand * ordering_cost) holding_cost) math_sqrt)"

definition EOQAlgorithm_calculate_total_cost ::
  "real \<Rightarrow> real \<Rightarrow> real \<Rightarrow> real \<Rightarrow> (real \<times> real \<times> real) result" where
  "EOQAlgorithm_calculate_total_cost annual_demand ordering_cost holding_cost order_quantity =
     (if order_quantity \<le> 0 then Inl (ValueError (Text ''Order quantity must be positive''))
      else and_then (py_truediv annual_demand order_quantity) (\<lambda>number_of_orders.
           and_then (py_truediv order_quantity 2) (\<lambda>half.
             let total_ordering_cost = number_of_orders * ordering_cost;
                 total_holding_cost = half * holding_cost;
                 total_cost = total_ordering_cost + total_holding_cost
             in Inr (total_cost, total_ordering_cost, total_holding_cost))))"

definition EOQAlgorithm_calculate_reorder_frequency :: "real \<Rightarrow> real \<Rightarrow> real result" where
  "EOQAlgorithm_calculate_reorder_frequency annual_demand eoq =
     (if eoq > 0 then py_truediv annual_demand eoq else Inr 0)"

subsection \<open>ReorderPointAlgorithm\<close>

definition ReorderPointAlgorithm_calculate :: "real \<Rightarrow> real \<Rightarrow> real \<Rightarrow> real result" where
  "ReorderPointAlgorithm_calculate daily_demand lead_time_days safety_stock =
     (if daily_demand < 0 then Inl (ValueError (Text ''Daily demand cannot be negative''))
      else if lead_time_days < 0 then Inl (ValueError (Text ''Lead time cannot be negative''))
      else if safety_stock < 0 then Inl (ValueError (Text ''Safety stock cannot be negative''))
      else Inr ((daily_demand * lead_time_days) + safety_stock))"

definition ReorderPointAlgorithm_calculate_from_annual ::
  "real \<Rightarrow> real \<Rightarrow> real \<Rightarrow> real \<Rightarrow> real result" where
  "ReorderPointAlgorithm_calculate_from_annual annual_demand lead_time_days safety_stock working_days =
     (if working_days \<le> 0 then Inl (ValueError (Text ''Working days must be positive''))
      else and_then (py_truediv annual_demand working_days) (\<lambda>daily_demand.
             ReorderPointAlgorithm_calculate daily_demand lead_time_days safety_stock))"

subsection \<open>SafetyStockAlgorithm\<close>

definition SafetyStockAlgorithm_calculate :: "real \<Rightarrow> real \<Rightarrow> real \<Rightarrow> real result" where
  "SafetyStockAlgorithm_calculate service_level_z demand_std_dev lead_time_days =
     (if service_level_z < 0
      then Inl (ValueError (Text ''Service level Z-score cannot be negative''))
      else if demand_std_dev < 0
      then Inl (ValueError (Text ''Standard deviation cannot be negative''))
      else if lead_time_days < 0 then Inl (ValueError (Text ''Lead time cannot be negative''))
      else and_then (math_sqrt lead_time_days) (\<lambda>root.
             Inr (service_level_z * demand_std_dev * root)))"

definition service_levels :: "(real, real) dict" where
  "service_levels =
     [(50, 0.00), (75, 0.67), (80, 0.84), (85, 1.04), (90, 1.28), (95, 1.65),
      (97, 1.88), (98, 2.05), (99, 2.33), (99.5, 2.58), (99.9, 3.09)]"

definition get_z_score_for_service_level :: "real \<Rightarrow> real result" where
  "get_z_score_for_service_level service_level_percent =
     (if service_level_percent \<in> set (map fst service_levels)
      then dict_getitem service_levels service_level_percent
      else and_then (py_min (\<lambda>x. \<bar>x - service_level_percent\<bar>) (map fst service_levels))
             (\<lambda>closest. dict_getitem service_levels closest))"

subsection \<open>ABCAnalysisAlgorithm\<close>

text \<open>The first loop: one pair \<open>(product_id, unit_cost * annual_demand)\<close> per item.\<close>

definition item_values_of :: "(string \<times> real \<times> real) list \<Rightarrow> (string \<times> real) list" where
  "item_values_of items =
     map (\<lambda>(product_id, unit_cost, annual_demand). (product_id, unit_cost * annual_demand)) items"

text \<open>
  \<open>item_values.sort(key=lambda x: x[1], reverse=True)\<close>: Python's sort is stable, also
  with \<open>reverse=True\<close>; it is the stable insertion sort on the negated key.
\<close>

definition sort_by_value_desc :: "(string \<times> real) list \<Rightarrow> (string \<times> real) list" where
  "sort_by_value_desc item_values = sort_key (\<lambda>x. - snd x) item_values"

text \<open>The \<open>if\<close>/\<open>elif\<close>/\<open>else\<close> of the classification loop.\<close>

definition category_of :: "real \<Rightarrow> string" where
  "category_of current_cumulative_percent =
     (if current_cumulative_percent < 80 then ''A''
      else if current_cumulative_percent < 95 then ''B''
      else ''C'')"

text \<open>The classification loop, with its two variables \<open>classification\<close> and \<open>cumulative_value\<close>.\<close>

fun classify_loop ::
  "real \<Rightarrow> (string \<times> real) list \<Rightarrow> (string, string) dict \<Rightarrow> real
     \<Rightarrow> (string, string) dict result" where
  "classify_loop total_value [] classification cumulative_value = Inr classification"
| "classify_loop total_value ((product_id, v) # rest) classification cumulative_value =
     and_then (py_truediv cumulative_value total_value) (\<lambda>q.
       let current_cumulative_percent = q * 100
       in classify_loop total_value rest
            (dict_setitem product_id (category_of current_cumulative_percent) classification)
            (cumulative_value + v))"

definition ABCAnalysisAlgorithm_calculate ::
  "(string \<times> real \<times> real) list \<Rightarrow> (string, string) dict result" where
  "ABCAnalysisAlgorithm_calculate items =
     (if items = [] then Inr []
      else let item_values = sort_by_value_desc (item_values_of items);
               total_value = sum_list (map snd item_values)
           in classify_loop total_value item_values [] 0)"

subsection \<open>ABCAnalysisAlgorithm over the interpreter's arithmetic\<close>

text \<open>
  The same routine with the arithmetic as a parameter: the product \<open>*\<close>, the addition
  \<open>+\<close>, the true division \<open>/\<close>, the comparison \<open><\<close>, the test \<open>== 0\<close> of the divisor,
  the built-in \<open>sum\<close> and the integer literals are the operations the interpreter
  performs on the numbers it is given, rounding included. Nothing is assumed about them
  here; \<open>exact_arithmetic\<close> is the instance with no rounding.
\<close>

record 'n arithmetic =
  num_mul :: "'n \<Rightarrow> 'n \<Rightarrow> 'n"
  num_add :: "'n \<Rightarrow> 'n \<Rightarrow> 'n"
  num_div :: "'n \<Rightarrow> 'n \<Rightarrow> 'n"
  num_lt :: "'n \<Rightarrow> 'n \<Rightarrow> bool"
  num_is_zero :: "'n \<Rightarrow> bool"
  num_sum :: "'n list \<Rightarrow> 'n"
  num_lit :: "int \<Rightarrow> 'n"

definition exact_arithmetic :: "real arithmetic" where
  "exact_arithmetic =
     \<lparr>num_mul = (*), num_add = (+), num_div = (/), num_lt = (<),
      num_is_zero = (\<lambda>x. x = 0), num_sum = sum_list, num_lit = of_int\<rparr>"

definition truediv_in :: "'n arithmetic \<Rightarrow> 'n \<Rightarrow> 'n \<Rightarrow> 'n result" where
  "truediv_in ar a b = (if num_is_zero ar b then Inl ZeroDivisionError else Inr (num_div ar a b))"

definition item_values_in ::
  "'n arithmetic \<Rightarrow> (string \<times> 'n \<times> 'n) list \<Rightarrow> (string \<times> 'n) list" where
  "item_values_in ar items =
     map (\<lambda>(product_id, unit_cost, annual_demand).
            (product_id, num_mul ar unit_cost annual_demand)) items"

text \<open>
  \<open>item_values.sort(key=lambda x: x[1], reverse=True)\<close>: a stable sort that only
  compares keys with \<open><\<close>. An item is placed behind the items whose value it is below
  and in front of all others, the items of the list being inserted from the last to
  the first.
\<close>

fun insert_by_value_desc ::
  "'n arithmetic \<Rightarrow> (string \<times> 'n) \<Rightarrow> (string \<times> 'n) list \<Rightarrow> (string \<times> 'n) list" where
  "insert_by_value_desc ar x [] = [x]"
| "insert_by_value_desc ar x (y # ys) =
     (if num_lt ar (snd x) (snd y) then y # insert_by_value_desc ar x ys else x # y # ys)"

definition sort_by_value_desc_in ::
  "'n arithmetic \<Rightarrow> (string \<times> 'n) list \<Rightarrow> (string \<times> 'n) list" where
  "sort_by_value_desc_in ar item_values = foldr (insert_by_value_desc ar) item_values []"

definition category_in :: "'n arithmetic \<Rightarrow> 'n \<Rightarrow> string" where
  "category_in ar current_cumulative_percent =
     (if num_lt ar current_cumulative_percent (num_lit ar 80) then ''A''
      else if num_lt ar current_cumulative_percent (num_lit ar 95) then ''B''
      else ''C'')"

fun classify_loop_in ::
  "'n arithmetic \<Rightarrow> 'n \<Rightarrow> (string \<times> 'n) list \<Rightarrow> (string, string) dict \<Rightarrow> 'n
     \<Rightarrow> (string, string) dict result" where
  "classify_loop_in ar total_value [] classification cumulative_value = Inr classification"
| "classify_loop_in ar total_value ((product_id, v) # rest) classification cumulative_value =
     and_then (truediv_in ar cumulative_value total_value) (\<lambda>q.
       let current_cumulative_percent = num_mul ar q (num_lit ar 100)
       in classify_loop_in ar total_value rest
            (dict_setitem product_id (category_in ar current_cumulative_percent) classification)
            (num_add ar cumulative_value v))"

definition ABCAnalysisAlgorithm_calculate_in ::
  "'n arithmetic \<Rightarrow> (string \<times> 'n \<times> 'n) list \<Rightarrow> (string, string) dict result" where
  "ABCAnalysisAlgorithm_calculate_in ar items =
     (if items = [] then Inr []
      else let item_values = sort_by_value_desc_in ar (item_values_in ar items);
               total_value = num_sum ar (map snd item_values)
           in classify_loop_in ar total_value item_values [] (num_lit ar 0))"

section \<open>models.py\<close>

text \<open>The timestamp of a \<open>Demand\<close> or an \<open>Order\<close> is passed in by the caller of the constructor.\<close>

type_synonym datetime = int

record Demand =
  demand_product_id :: string
  demand_quantity :: real
  demand_timestamp :: datetime

definition Demand_init :: "string \<Rightarrow> real \<Rightarrow> datetime \<Rightarrow> Demand result" where
  "Demand_init pid qty ts =
     (if qty < 0 then Inl (ValueError (Text ''Demand quantity cannot be negative''))
      else Inr \<lparr>demand_product_id = pid, demand_quantity = qty, demand_timestamp = ts\<rparr>)"

record Order =
  order_product_id :: string
  order_quantity :: real
  order_cost :: real
  order_lead_time_days :: real
  order_timestamp :: datetime

definition Order_init :: "string \<Rightarrow> real \<Rightarrow> real \<Rightarrow> real \<Rightarrow> datetime \<Rightarrow> Order result" where
  "Order_init pid qty cost lead ts =
     (if qty \<le> 0 then Inl (ValueError (Text ''Order quantity must be positive''))
      else if cost < 0 then Inl (ValueError (Text ''Order cost cannot be negative''))
      else if lead < 0 then Inl (ValueError (Text ''Lead time cannot be negative''))
      else Inr \<lparr>order_product_id = pid, order_quantity = qty, order_cost = cost,
                order_lead_time_days = lead, order_timestamp = ts\<rparr>)"

definition total_cost :: "Order \<Rightarrow> real" where
  "total_cost self = order_cost self"

record Inventory =
  product_id :: string
  current_stock :: real
  holding_cost_per_unit :: real
  unit_cost :: real
  min_stock_level :: real
  max_stock_level :: "real option"

definition Inventory_init ::
  "string \<Rightarrow> real \<Rightarrow> real \<Rightarrow> real \<Rightarrow> real \<Rightarrow> real option \<Rightarrow> Inventory result" where
  "Inventory_init pid stock holding ucost min_level max_level =
     (if stock < 0 then Inl (ValueError (Text ''Current stock cannot be negative''))
      else if holding < 0 then Inl (ValueError (Text ''Holding cost cannot be negative''))
      else if ucost < 0 then Inl (ValueError (Text ''Unit cost cannot be negative''))
      else if min_level < 0
      then Inl (ValueError (Text ''Minimum stock level cannot be negative''))
      else if (case max_level of None \<Rightarrow> False | Some m \<Rightarrow> m < min_level)
      then Inl (ValueError (Text ''Maximum stock level cannot be less than minimum''))
      else Inr \<lparr>product_id = pid, current_stock = stock, holding_cost_per_unit = holding,
                unit_cost = ucost, min_stock_level = min_level, max_stock_level = max_level\<rparr>)"

text \<open>
  The mutating methods return the outcome of the call (\<open>Inr ()\<close>, or the exception)
  together with the object as the call leaves it.
\<close>

definition add_stock :: "real \<Rightarrow> Inventory \<Rightarrow> unit result \<times> Inventory" where
  "add_stock quantity self =
     (if quantity \<le> 0 then (Inl (ValueError (Text ''Quantity to add must be positive'')), self)
      else (Inr (), self\<lparr>current_stock := current_stock self + quantity\<rparr>))"

definition remove_stock :: "real \<Rightarrow> Inventory \<Rightarrow> unit result \<times> Inventory" where
  "remove_stock quantity self =
     (if quantity \<le> 0
      then (Inl (ValueError (Text ''Quantity to remove must be positive'')), self)
      else if quantity > current_stock self
      then (Inl (ValueError (Cannot_remove quantity (current_stock self))), self)
      else (Inr (), self\<lparr>current_stock := current_stock self - quantity\<rparr>))"

definition is_below_minimum :: "Inventory \<Rightarrow> bool" where
  "is_below_minimum self = (current_stock self < min_stock_level self)"

definition is_above_maximum :: "Inventory \<Rightarrow> bool" where
  "is_above_maximum self =
     (case max_stock_level self of None \<Rightarrow> False | Some m \<Rightarrow> current_stock self > m)"

definition calculate_holding_cost :: "Inventory \<Rightarrow> real" where
  "calculate_holding_cost self = current_stock self * holding_cost_per_unit self"

text \<open>
  A caller's sequence of \<open>add_stock\<close> and \<open>remove_stock\<close> calls on one object: a call
  that raises leaves the object to the next call as it is.
\<close>

datatype stock_call = Add_stock real | Remove_stock real

fun call_stock :: "stock_call \<Rightarrow> Inventory \<Rightarrow> unit result \<times> Inventory" where
  "call_stock (Add_stock q) self = add_stock q self"
| "call_stock (Remove_stock q) self = remove_stock q self"

fun run_calls :: "stock_call list \<Rightarrow> Inventory \<Rightarrow> Inventory" where
  "run_calls [] self = self"
| "run_calls (c # cs) self = run_calls cs (snd (call_stock c self))"

section \<open>Formula algorithms\<close>

subsection \<open>Economic order quantity\<close>

lemma sqrt_50000_bounds: "\<bar>sqrt 50000 - 223.61\<bar> < (0.005::real)"
proof -
  have lo: "(223.606::real) < sqrt 50000"
    by (rule real_less_rsqrt) (simp add: power2_eq_square)
  have hi: "sqrt 50000 < (223.608::real)"
    by (rule real_less_lsqrt) (simp_all add: power2_eq_square)
  from lo hi show ?thesis by (simp add: abs_if)
qed

lemma EOQ_valid:
  assumes "0 < D" "0 \<le> S" "0 < H"
  shows "EOQAlgorithm_calculate D S H = Inr (sqrt (2 * D * S / H))"
proof -
  have "0 \<le> 2 * D * S / H"
    using assms by (intro divide_nonneg_pos mult_nonneg_nonneg) simp_all
  then have "\<not> 2 * D * S / H < 0" by (simp only: not_less)
  with assms show ?thesis
    by (simp add: EOQAlgorithm_calculate_def and_then_def py_truediv_def math_sqrt_def)
qed

lemma EOQ_invalid:
  assumes "D \<le> 0 \<or> S < 0 \<or> H \<le> 0"
  shows "\<exists>msg. EOQAlgorithm_calculate D S H = Inl (ValueError msg)"
  using assms by (auto simp: EOQAlgorithm_calculate_def)

text \<open>
  Claim C2. For annual demand \<open>D > 0\<close>, ordering cost \<open>S \<ge> 0\<close> and holding cost
  \<open>H > 0\<close>, \<open>EOQAlgorithm.calculate\<close> returns \<open>sqrt (2 D S / H)\<close>; it raises
  \<open>ValueError\<close> exactly when \<open>D \<le> 0\<close>, \<open>S < 0\<close> or \<open>H \<le> 0\<close>, and then returns no
  result; \<open>EOQ(1000, 50, 2)\<close> is \<open>223.61\<close> to two decimals.
\<close>

theorem EOQ_calculate_spec:
  "(0 < D \<and> 0 \<le> S \<and> 0 < H \<longrightarrow> EOQAlgorithm_calculate D S H = Inr (sqrt (2 * D * S / H)))
   \<and> ((\<exists>msg. EOQAlgorithm_calculate D S H = Inl (ValueError msg)) \<longleftrightarrow> (D \<le> 0 \<or> S < 0 \<or> H \<le> 0))
   \<and> ((D \<le> 0 \<or> S < 0 \<or> H \<le> 0) \<longrightarrow> (\<forall>r. EOQAlgorithm_calculate D S H \<noteq> Inr r))
   \<and> (\<exists>r. EOQAlgorithm_calculate 1000 50 2 = Inr r \<and> \<bar>r - 223.61\<bar> < 0.005)"
proof (intro conjI)
  show "0 < D \<and> 0 \<le> S \<and> 0 < H \<longrightarrow> EOQAlgorithm_calculate D S H = Inr (sqrt (2 * D * S / H))"
    using EOQ_valid by blast
  show "(\<exists>msg. EOQAlgorithm_calculate D S H = Inl (ValueError msg)) \<longleftrightarrow> (D \<le> 0 \<or> S < 0 \<or> H \<le> 0)"
  proof
    assume "\<exists>msg. EOQAlgorithm_calculate D S H = Inl (ValueError msg)"
    then show "D \<le> 0 \<or> S < 0 \<or> H \<le> 0"
      using EOQ_valid [of D S H] by (cases "0 < D \<and> 0 \<le> S \<and> 0 < H") auto
  next
    assume "D \<le> 0 \<or> S < 0 \<or> H \<le> 0"
    then show "\<exists>msg. EOQAlgorithm_calculate D S H = Inl (ValueError msg)" by (rule EOQ_invalid)
  qed
  show "(D \<le> 0 \<or> S < 0 \<or> H \<le> 0) \<longrightarrow> (\<forall>r. EOQAlgorithm_calculate D S H \<noteq> Inr r)"
    using EOQ_invalid [of D S H] by auto
  have "EOQAlgorithm_calculate 1000 50 2 = Inr (sqrt 50000)"
    using EOQ_valid [of 1000 50 2] by simp
  then show "\<exists>r. EOQAlgorithm_calculate 1000 50 2 = Inr r \<and> \<bar>r - 223.61\<bar> < 0.005"
    using sqrt_50000_bounds by simp
qed

theorem EOQ_calculate_spec_witness:
  "EOQAlgorithm_calculate 20 5 2 = Inr 10
   \<and> (\<exists>msg. EOQAlgorithm_calculate 0 5 2 = Inl (ValueError msg))
   \<and> (\<forall>r. EOQAlgorithm_calculate 0 5 2 \<noteq> Inr r)"
proof -
  have "sqrt (2 * 20 * 5 / 2) = (10::real)"
    by (rule real_sqrt_unique) simp_all
  then show ?thesis
    using EOQ_calculate_spec [of 20 5 2] EOQ_calculate_spec [of 0 5 2] by simp
qed

subsection \<open>Safety stock\<close>

text \<open>
  Claim C5. For \<open>z \<ge> 0\<close>, standard deviation \<open>sd \<ge> 0\<close> and lead time \<open>L \<ge> 0\<close>,
  \<open>SafetyStockAlgorithm.calculate\<close> returns \<open>z * sd * sqrt L\<close>; any negative input
  raises \<open>ValueError\<close>; with \<open>sd = 0\<close> the result is \<open>0\<close> for every such \<open>z\<close> and \<open>L\<close>.
\<close>

theorem SafetyStock_calculate_spec:
  "(0 \<le> z \<and> 0 \<le> sd \<and> 0 \<le> L \<longrightarrow> SafetyStockAlgorithm_calculate z sd L = Inr (z * sd * sqrt L))
   \<and> ((z < 0 \<or> sd < 0 \<or> L < 0) \<longrightarrow> (\<exists>msg. SafetyStockAlgorithm_calculate z sd L = Inl (ValueError msg)))
   \<and> (0 \<le> z \<and> 0 \<le> L \<longrightarrow> SafetyStockAlgorithm_calculate z 0 L = Inr 0)"
  by (auto simp: SafetyStockAlgorithm_calculate_def and_then_def math_sqrt_def)

theorem SafetyStock_calculate_spec_witness:
  "SafetyStockAlgorithm_calculate 3 5 4 = Inr 30
   \<and> (\<exists>msg. SafetyStockAlgorithm_calculate (-1) 5 4 = Inl (ValueError msg))
   \<and> SafetyStockAlgorithm_calculate 3 0 4 = Inr 0"
  using SafetyStock_calculate_spec [of 3 5 4] SafetyStock_calculate_spec [of "-1" 5 4]
  by simp

subsection \<open>Reorder point\<close>

text \<open>
  Claim C6. For daily demand \<open>d \<ge> 0\<close>, lead time \<open>L \<ge> 0\<close> and safety stock \<open>ss \<ge> 0\<close>,
  \<open>ReorderPointAlgorithm.calculate\<close> returns \<open>d * L + ss\<close>; any negative input raises
  \<open>ValueError\<close>; for working days \<open>w > 0\<close>, \<open>calculate_from_annual(D, L, ss, w)\<close> is
  \<open>calculate(D / w, L, ss)\<close>, the same result or the same exception; and
  \<open>calculate_from_annual(3650, 5, 20, 365) = calculate(10, 5, 20) = 70\<close>.
\<close>

theorem ReorderPoint_calculate_spec:
  "(0 \<le> d \<and> 0 \<le> L \<and> 0 \<le> ss \<longrightarrow> ReorderPointAlgorithm_calculate d L ss = Inr (d * L + ss))
   \<and> ((d < 0 \<or> L < 0 \<or> ss < 0) \<longrightarrow> (\<exists>msg. ReorderPointAlgorithm_calculate d L ss = Inl (ValueError msg)))
   \<and> (0 < w \<longrightarrow> ReorderPointAlgorithm_calculate_from_annual D L ss w
                   = ReorderPointAlgorithm_calculate (D / w) L ss)
   \<and> ReorderPointAlgorithm_calculate_from_annual 3650 5 20 365 = Inr 70
   \<and> ReorderPointAlgorithm_calculate 10 5 20 = Inr 70"
  by (auto simp: ReorderPointAlgorithm_calculate_def ReorderPointAlgorithm_calculate_from_annual_def
      and_then_def py_truediv_def)

theorem ReorderPoint_calculate_spec_witness:
  "ReorderPointAlgorithm_calculate 10 5 0 = Inr 50
   \<and> (\<exists>msg. ReorderPointAlgorithm_calculate (-10) 5 0 = Inl (ValueError msg))
   \<and> ReorderPointAlgorithm_calculate_from_annual 500 5 20 250 = ReorderPointAlgorithm_calculate 2 5 20"
  using ReorderPoint_calculate_spec [of 10 5 0 250 500]
    ReorderPoint_calculate_spec [of "-10" 5 0 250 500]
    ReorderPoint_calculate_spec [of 10 5 20 250 500]
  by simp

section \<open>Inventory\<close>

subsection \<open>Stock never negative\<close>

lemma add_stock_nonneg:
  "0 \<le> current_stock self \<Longrightarrow> 0 \<le> current_stock (snd (add_stock q self))"
  by (simp add: add_stock_def)

lemma remove_stock_nonneg:
  "0 \<le> current_stock self \<Longrightarrow> 0 \<le> current_stock (snd (remove_stock q self))"
  by (simp add: remove_stock_def)

lemma call_stock_nonneg:
  "0 \<le> current_stock self \<Longrightarrow> 0 \<le> current_stock (snd (call_stock c self))"
  by (cases c) (simp_all add: add_stock_nonneg remove_stock_nonneg)

lemma run_calls_nonneg:
  "0 \<le> current_stock self \<Longrightarrow> 0 \<le> current_stock (run_calls cs self)"
proof (induction cs arbitrary: self)
  case Nil
  then show ?case by simp
next
  case (Cons c cs)
  from Cons.prems have "0 \<le> current_stock (snd (call_stock c self))"
    by (rule call_stock_nonneg)
  then show ?case using Cons.IH by simp
qed

lemma Inventory_init_nonneg:
  "Inventory_init pid stock holding ucost mn mx = Inr self \<Longrightarrow> 0 \<le> current_stock self"
  by (auto simp: Inventory_init_def split: if_splits)

text \<open>
  Claim C4. On an inventory with \<open>current_stock \<ge> 0\<close>: \<open>remove_stock(q)\<close> with
  \<open>q > current_stock\<close> raises \<open>ValueError\<close> and leaves the object as it was; with
  \<open>q \<le> 0\<close> it raises and leaves the object as it was; with \<open>0 < q \<le> current_stock\<close>
  it lowers \<open>current_stock\<close> by exactly \<open>q\<close>; and after any sequence of \<open>add_stock\<close> and
  \<open>remove_stock\<close> calls, raising or not, \<open>current_stock\<close> is still not negative.
\<close>

theorem remove_stock_guarded:
  assumes "0 \<le> current_stock self"
  shows "(q > current_stock self \<longrightarrow>
            remove_stock q self = (Inl (ValueError (Cannot_remove q (current_stock self))), self))
       \<and> (q \<le> 0 \<longrightarrow>
            remove_stock q self = (Inl (ValueError (Text ''Quantity to remove must be positive'')), self))
       \<and> (0 < q \<and> q \<le> current_stock self \<longrightarrow>
            remove_stock q self = (Inr (), self\<lparr>current_stock := current_stock self - q\<rparr>))
       \<and> 0 \<le> current_stock (run_calls cs self)"
proof (intro conjI impI)
  assume "q > current_stock self"
  with assms have "\<not> q \<le> 0" by simp
  with \<open>q > current_stock self\<close>
  show "remove_stock q self = (Inl (ValueError (Cannot_remove q (current_stock self))), self)"
    by (simp add: remove_stock_def)
next
  assume "q \<le> 0"
  then show "remove_stock q self
      = (Inl (ValueError (Text ''Quantity to remove must be positive'')), self)"
    by (simp add: remove_stock_def)
next
  assume "0 < q \<and> q \<le> current_stock self"
  then show "remove_stock q self = (Inr (), self\<lparr>current_stock := current_stock self - q\<rparr>)"
    by (simp add: remove_stock_def)
next
  show "0 \<le> current_stock (run_calls cs self)"
    using assms by (rule run_calls_nonneg)
qed

theorem remove_stock_guarded_witness:
  "(let self = \<lparr>product_id = ''P001'', current_stock = 10, holding_cost_per_unit = 2,
                unit_cost = 0, min_stock_level = 0, max_stock_level = None\<rparr>
    in 0 \<le> current_stock self
       \<and> remove_stock 15 self = (Inl (ValueError (Cannot_remove 15 10)), self)
       \<and> remove_stock 0 self
           = (Inl (ValueError (Text ''Quantity to remove must be positive'')), self)
       \<and> remove_stock 4 self = (Inr (), self\<lparr>current_stock := 6\<rparr>)
       \<and> 0 \<le> current_stock (run_calls [Remove_stock 4, Remove_stock 20, Add_stock 3] self))"
  using remove_stock_guarded [of "\<lparr>product_id = ''P001'', current_stock = 10, holding_cost_per_unit = 2,
                unit_cost = 0, min_stock_level = 0, max_stock_level = None\<rparr>" 15
                "[Remove_stock 4, Remove_stock 20, Add_stock 3]"]
   remove_stock_guarded [of "\<lparr>product_id = ''P001'', current_stock = 10, holding_cost_per_unit = 2,
                unit_cost = 0, min_stock_level = 0, max_stock_level = None\<rparr>" 0 "[]"]
   remove_stock_guarded [of "\<lparr>product_id = ''P001'', current_stock = 10, holding_cost_per_unit = 2,
                unit_cost = 0, min_stock_level = 0, max_stock_level = None\<rparr>" 4 "[]"]
  by (simp add: Let_def)

subsection \<open>Threshold predicates\<close>

text \<open>
  The constructor only returns an object whose maximum level, when present, is not below
  its minimum level, and no method changes either level.
\<close>

lemma Inventory_init_levels:
  "Inventory_init pid stock holding ucost mn mx = Inr self \<Longrightarrow>
     max_stock_level self = Some m \<Longrightarrow> min_stock_level self \<le> m"
  by (auto simp: Inventory_init_def split: if_splits option.splits)

lemma call_stock_levels:
  "min_stock_level (snd (call_stock c self)) = min_stock_level self
   \<and> max_stock_level (snd (call_stock c self)) = max_stock_level self"
  by (cases c) (simp_all add: add_stock_def remove_stock_def)

lemma run_calls_levels:
  "min_stock_level (run_calls cs self) = min_stock_level self
   \<and> max_stock_level (run_calls cs self) = max_stock_level self"
  by (induction cs arbitrary: self) (simp_all add: call_stock_levels)

text \<open>
  Claim C9. \<open>is_below_minimum\<close> holds exactly when \<open>current_stock < min_stock_level\<close>;
  \<open>is_above_maximum\<close> holds exactly when \<open>max_stock_level\<close> is present and
  \<open>current_stock > max_stock_level\<close>, so it is false when the maximum is absent. At
  \<open>current_stock = min_stock_level\<close> the first is false and at
  \<open>current_stock = max_stock_level\<close> the second is false; on an object whose maximum is
  not below its minimum (every constructed object), both are false at either boundary.
\<close>

theorem threshold_predicates_strict:
  "(is_below_minimum self \<longleftrightarrow> current_stock self < min_stock_level self)
   \<and> (is_above_maximum self \<longleftrightarrow> (\<exists>m. max_stock_level self = Some m \<and> current_stock self > m))
   \<and> (max_stock_level self = None \<longrightarrow> \<not> is_above_maximum self)
   \<and> (current_stock self = min_stock_level self \<longrightarrow> \<not> is_below_minimum self)
   \<and> (max_stock_level self = Some (current_stock self) \<longrightarrow> \<not> is_above_maximum self)
   \<and> ((\<forall>m. max_stock_level self = Some m \<longrightarrow> min_stock_level self \<le> m) \<longrightarrow>
        current_stock self = min_stock_level self \<or> max_stock_level self = Some (current_stock self) \<longrightarrow>
        \<not> is_below_minimum self \<and> \<not> is_above_maximum self)"
  by (auto simp: is_below_minimum_def is_above_maximum_def split: option.splits)

theorem threshold_predicates_strict_witness:
  "(let at_min = \<lparr>product_id = ''P001'', current_stock = 20, holding_cost_per_unit = 2,
                   unit_cost = 0, min_stock_level = 20, max_stock_level = Some 200\<rparr>;
        at_max = at_min\<lparr>current_stock := 200\<rparr>;
        unbounded = at_min\<lparr>max_stock_level := None\<rparr>
    in \<not> is_below_minimum at_min \<and> \<not> is_above_maximum at_min
       \<and> \<not> is_below_minimum at_max \<and> \<not> is_above_maximum at_max
       \<and> \<not> is_above_maximum unbounded)"
  using threshold_predicates_strict [of "\<lparr>product_id = ''P001'', current_stock = 20,
            holding_cost_per_unit = 2, unit_cost = 0, min_stock_level = 20,
            max_stock_level = Some 200\<rparr>"]
    threshold_predicates_strict [of "\<lparr>product_id = ''P001'', current_stock = 200,
            holding_cost_per_unit = 2, unit_cost = 0, min_stock_level = 20,
            max_stock_level = Some 200\<rparr>"]
    threshold_predicates_strict [of "\<lparr>product_id = ''P001'', current_stock = 20,
            holding_cost_per_unit = 2, unit_cost = 0, min_stock_level = 20,
            max_stock_level = None\<rparr>"]
  by (simp add: Let_def)

section \<open>Service-level table\<close>

text \<open>
  The minimum search returns an element of the sequence whose key is strictly below the
  key of every earlier element and not above the key of any later one: the first minimum.
\<close>

lemma min_from_le_best: "f (min_from f best xs) \<le> f best"
proof (induction xs arbitrary: best)
  case Nil
  show ?case by simp
next
  case (Cons x xs)
  show ?case
  proof (cases "f x < f best")
    case True
    with Cons.IH [of x] show ?thesis by simp
  next
    case False
    with Cons.IH [of best] show ?thesis by simp
  qed
qed

lemma min_from_split:
  "\<exists>before after. best # xs = before @ min_from f best xs # after
     \<and> (\<forall>y\<in>set before. f (min_from f best xs) < f y)
     \<and> (\<forall>y\<in>set after. f (min_from f best xs) \<le> f y)"
proof (induction xs arbitrary: best)
  case Nil
  have "[best] = [] @ min_from f best [] # []" by simp
  then show ?case by fastforce
next
  case (Cons x xs)
  show ?case
  proof (cases "f x < f best")
    case True
    define m where "m = min_from f x xs"
    have m: "min_from f best (x # xs) = m" using True by (simp add: m_def)
    from Cons.IH [of x] obtain before after where
      split: "x # xs = before @ m # after"
      and lt: "\<forall>y\<in>set before. f m < f y"
      and le: "\<forall>y\<in>set after. f m \<le> f y"
      unfolding m_def by blast
    have "f m \<le> f x" unfolding m_def by (rule min_from_le_best)
    with True have "f m < f best" by simp
    with split lt have
      "best # x # xs = (best # before) @ m # after \<and> (\<forall>y\<in>set (best # before). f m < f y)"
      by simp
    with le show ?thesis unfolding m by blast
  next
    case False
    define m where "m = min_from f best xs"
    have m: "min_from f best (x # xs) = m" using False by (simp add: m_def)
    from Cons.IH [of best] obtain before after where
      split: "best # xs = before @ m # after"
      and lt: "\<forall>y\<in>set before. f m < f y"
      and le: "\<forall>y\<in>set after. f m \<le> f y"
      unfolding m_def by blast
    show ?thesis
    proof (cases before)
      case Nil
      with split have "m = best" "xs = after" by simp_all
      with False le have
        "best # x # xs = [] @ m # (x # after) \<and> (\<forall>y\<in>set (x # after). f m \<le> f y)"
        by simp
      then show ?thesis unfolding m by fastforce
    next
      case (Cons b before')
      with split have "b = best" "xs = before' @ m # after" by simp_all
      moreover from lt Cons \<open>b = best\<close> have "f m < f best" by simp
      moreover from this False have "f m < f x" by simp
      ultimately have
        "best # x # xs = (best # x # before') @ m # after
         \<and> (\<forall>y\<in>set (best # x # before'). f m < f y)"
        using lt Cons by simp
      with le show ?thesis unfolding m by blast
    qed
  qed
qed

lemma service_levels_keys:
  "map fst service_levels = [50, 75, 80, 85, 90, 95, 97, 98, 99, 99.5, 99.9]"
  by (simp add: service_levels_def)

lemma service_levels_key_value:
  "k \<in> set (map fst service_levels) \<Longrightarrow> \<exists>z. dict_getitem service_levels k = Inr z \<and> map_of service_levels k = Some z"
  by (cases "map_of service_levels k") (auto simp: dict_getitem_def map_of_eq_None_iff)

lemma z_95: "get_z_score_for_service_level 95 = Inr 1.65"
  by (simp add: get_z_score_for_service_level_def service_levels_def dict_getitem_def)
lemma z_99: "get_z_score_for_service_level 99 = Inr 2.33"
  by (simp add: get_z_score_for_service_level_def service_levels_def dict_getitem_def)
lemma z_90: "get_z_score_for_service_level 90 = Inr 1.28"
  by (simp add: get_z_score_for_service_level_def service_levels_def dict_getitem_def)
lemma z_96: "get_z_score_for_service_level 96 = Inr 1.65"
  by (simp add: get_z_score_for_service_level_def service_levels_def dict_getitem_def and_then_def)

text \<open>
  Claim C7. For a percentage that is one of the eleven table keys,
  \<open>get_z_score_for_service_level\<close> returns the table value (\<open>95 \<mapsto> 1.65\<close>,
  \<open>99 \<mapsto> 2.33\<close>, \<open>90 \<mapsto> 1.28\<close>); otherwise it returns the value of a table key at
  minimal absolute distance, the first such key in table order; for \<open>96\<close> the result is
  one of \<open>1.65\<close> and \<open>1.88\<close>.
\<close>

theorem get_z_score_nearest:
  "(p \<in> set (map fst service_levels) \<longrightarrow>
      (\<exists>z. map_of service_levels p = Some z \<and> get_z_score_for_service_level p = Inr z))
   \<and> (p \<notin> set (map fst service_levels) \<longrightarrow>
      (\<exists>k z before after.
          map fst service_levels = before @ k # after
          \<and> (\<forall>k'\<in>set before. \<bar>k - p\<bar> < \<bar>k' - p\<bar>)
          \<and> (\<forall>k'\<in>set after. \<bar>k - p\<bar> \<le> \<bar>k' - p\<bar>)
          \<and> map_of service_levels k = Some z
          \<and> get_z_score_for_service_level p = Inr z))
   \<and> set (map fst service_levels) = {50, 75, 80, 85, 90, 95, 97, 98, 99, 99.5, 99.9}
   \<and> get_z_score_for_service_level 95 = Inr 1.65
   \<and> get_z_score_for_service_level 99 = Inr 2.33
   \<and> get_z_score_for_service_level 90 = Inr 1.28
   \<and> (\<exists>z\<in>{1.65, 1.88}. get_z_score_for_service_level 96 = Inr z)"
proof (intro conjI impI)
  assume "p \<in> set (map fst service_levels)"
  then show "\<exists>z. map_of service_levels p = Some z \<and> get_z_score_for_service_level p = Inr z"
    using service_levels_key_value [of p]
    by (auto simp: get_z_score_for_service_level_def)
next
  assume notin: "p \<notin> set (map fst service_levels)"
  let ?f = "\<lambda>x. \<bar>x - p\<bar>"
  obtain k0 ks where keys: "map fst service_levels = k0 # ks"
    by (simp add: service_levels_keys)
  let ?k = "min_from ?f k0 ks"
  from min_from_split [of k0 ks ?f] obtain before after where
    split: "k0 # ks = before @ ?k # after"
    and lt: "\<forall>y\<in>set before. ?f ?k < ?f y"
    and le: "\<forall>y\<in>set after. ?f ?k \<le> ?f y"
    by blast
  from split keys have "?k \<in> set (map fst service_levels)" by simp
  then obtain z where z: "dict_getitem service_levels ?k = Inr z"
    "map_of service_levels ?k = Some z"
    using service_levels_key_value by blast
  from notin keys z have "get_z_score_for_service_level p = Inr z"
    by (simp add: get_z_score_for_service_level_def and_then_def)
  with split keys lt le z
  show "\<exists>k z before after.
          map fst service_levels = before @ k # after
          \<and> (\<forall>k'\<in>set before. \<bar>k - p\<bar> < \<bar>k' - p\<bar>)
          \<and> (\<forall>k'\<in>set after. \<bar>k - p\<bar> \<le> \<bar>k' - p\<bar>)
          \<and> map_of service_levels k = Some z
          \<and> get_z_score_for_service_level p = Inr z"
    by metis
next
  show "set (map fst service_levels) = {50, 75, 80, 85, 90, 95, 97, 98, 99, 99.5, 99.9}"
    by (simp add: service_levels_keys)
next
  show "get_z_score_for_service_level 95 = Inr 1.65" by (rule z_95)
  show "get_z_score_for_service_level 99 = Inr 2.33" by (rule z_99)
  show "get_z_score_for_service_level 90 = Inr 1.28" by (rule z_90)
  show "\<exists>z\<in>{1.65, 1.88}. get_z_score_for_service_level 96 = Inr z"
    using z_96 by simp
qed


theorem get_z_score_nearest_witness:
  "(95 \<in> set (map fst service_levels)
      \<and> (\<exists>z. map_of service_levels 95 = Some z \<and> get_z_score_for_service_level 95 = Inr z))
   \<and> (96 \<notin> set (map fst service_levels)
      \<and> (\<exists>k z before after.
          map fst service_levels = before @ k # after
          \<and> (\<forall>k'\<in>set before. \<bar>k - 96\<bar> < \<bar>k' - 96\<bar>)
          \<and> (\<forall>k'\<in>set after. \<bar>k - 96\<bar> \<le> \<bar>k' - 96\<bar>)
          \<and> map_of service_levels k = Some z
          \<and> get_z_score_for_service_level 96 = Inr z))"
proof -
  have in95: "(95::real) \<in> set (map fst service_levels)"
    and out96: "(96::real) \<notin> set (map fst service_levels)"
    by (simp_all add: service_levels_keys)
  from in95 out96 get_z_score_nearest [of 95] get_z_score_nearest [of 96]
  show ?thesis by blast
qed

section \<open>Validation policy\<close>

text \<open>
  Claim C8. \<open>calculate_reorder_frequency(D, eoq)\<close> returns \<open>D / eoq\<close> when \<open>eoq > 0\<close> and
  \<open>0\<close> when \<open>eoq \<le> 0\<close>, and never raises. It is the only operation that answers an
  input outside its range with a default: every other operation with a range on its
  inputs (the three \<open>calculate\<close> formulas, \<open>calculate_total_cost\<close>,
  \<open>calculate_from_annual\<close>, \<open>add_stock\<close>, \<open>remove_stock\<close> and the three constructors) raises
  \<open>ValueError\<close> on an input outside that range.
\<close>

theorem reorder_frequency_soft_fallback:
  "(0 < eoq \<longrightarrow> EOQAlgorithm_calculate_reorder_frequency D eoq = Inr (D / eoq))
   \<and> (eoq \<le> 0 \<longrightarrow> EOQAlgorithm_calculate_reorder_frequency D eoq = Inr 0)
   \<and> (\<forall>e. EOQAlgorithm_calculate_reorder_frequency D eoq \<noteq> Inl e)
   \<and> (D \<le> 0 \<or> S < 0 \<or> H \<le> 0 \<longrightarrow>
        (\<exists>msg. EOQAlgorithm_calculate D S H = Inl (ValueError msg)))
   \<and> (Q \<le> 0 \<longrightarrow>
        (\<exists>msg. EOQAlgorithm_calculate_total_cost D S H Q = Inl (ValueError msg)))
   \<and> (d < 0 \<or> L < 0 \<or> ss < 0 \<longrightarrow>
        (\<exists>msg. ReorderPointAlgorithm_calculate d L ss = Inl (ValueError msg)))
   \<and> (w \<le> 0 \<longrightarrow>
        (\<exists>msg. ReorderPointAlgorithm_calculate_from_annual D L ss w = Inl (ValueError msg)))
   \<and> (z < 0 \<or> sd < 0 \<or> L < 0 \<longrightarrow>
        (\<exists>msg. SafetyStockAlgorithm_calculate z sd L = Inl (ValueError msg)))
   \<and> (q \<le> 0 \<longrightarrow> (\<exists>msg. add_stock q self = (Inl (ValueError msg), self)))
   \<and> (q \<le> 0 \<or> q > current_stock self \<longrightarrow>
        (\<exists>msg. remove_stock q self = (Inl (ValueError msg), self)))
   \<and> (qty < 0 \<longrightarrow> (\<exists>msg. Demand_init pid qty ts = Inl (ValueError msg)))
   \<and> (qty \<le> 0 \<or> cost < 0 \<or> lead < 0 \<longrightarrow>
        (\<exists>msg. Order_init pid qty cost lead ts = Inl (ValueError msg)))
   \<and> (stock < 0 \<or> holding < 0 \<or> ucost < 0 \<or> mn < 0 \<or> (\<exists>m. mx = Some m \<and> m < mn) \<longrightarrow>
        (\<exists>msg. Inventory_init pid stock holding ucost mn mx = Inl (ValueError msg)))"
proof (intro conjI)
  show "0 < eoq \<longrightarrow> EOQAlgorithm_calculate_reorder_frequency D eoq = Inr (D / eoq)"
    by (simp add: EOQAlgorithm_calculate_reorder_frequency_def py_truediv_def)
  show "eoq \<le> 0 \<longrightarrow> EOQAlgorithm_calculate_reorder_frequency D eoq = Inr 0"
    by (simp add: EOQAlgorithm_calculate_reorder_frequency_def)
  show "\<forall>e. EOQAlgorithm_calculate_reorder_frequency D eoq \<noteq> Inl e"
    by (simp add: EOQAlgorithm_calculate_reorder_frequency_def py_truediv_def)
  show "D \<le> 0 \<or> S < 0 \<or> H \<le> 0 \<longrightarrow>
        (\<exists>msg. EOQAlgorithm_calculate D S H = Inl (ValueError msg))"
    using EOQ_invalid by blast
  show "Q \<le> 0 \<longrightarrow> (\<exists>msg. EOQAlgorithm_calculate_total_cost D S H Q = Inl (ValueError msg))"
    by (simp add: EOQAlgorithm_calculate_total_cost_def)
  show "d < 0 \<or> L < 0 \<or> ss < 0 \<longrightarrow>
        (\<exists>msg. ReorderPointAlgorithm_calculate d L ss = Inl (ValueError msg))"
    by (auto simp: ReorderPointAlgorithm_calculate_def)
  show "w \<le> 0 \<longrightarrow>
        (\<exists>msg. ReorderPointAlgorithm_calculate_from_annual D L ss w = Inl (ValueError msg))"
    by (simp add: ReorderPointAlgorithm_calculate_from_annual_def)
  show "z < 0 \<or> sd < 0 \<or> L < 0 \<longrightarrow>
        (\<exists>msg. SafetyStockAlgorithm_calculate z sd L = Inl (ValueError msg))"
    by (auto simp: SafetyStockAlgorithm_calculate_def)
  show "q \<le> 0 \<longrightarrow> (\<exists>msg. add_stock q self = (Inl (ValueError msg), self))"
    by (simp add: add_stock_def)
  show "q \<le> 0 \<or> q > current_stock self \<longrightarrow>
        (\<exists>msg. remove_stock q self = (Inl (ValueError msg), self))"
    by (auto simp: remove_stock_def)
  show "qty < 0 \<longrightarrow> (\<exists>msg. Demand_init pid qty ts = Inl (ValueError msg))"
    by (simp add: Demand_init_def)
  show "qty \<le> 0 \<or> cost < 0 \<or> lead < 0 \<longrightarrow>
        (\<exists>msg. Order_init pid qty cost lead ts = Inl (ValueError msg))"
    by (auto simp: Order_init_def)
  show "stock < 0 \<or> holding < 0 \<or> ucost < 0 \<or> mn < 0 \<or> (\<exists>m. mx = Some m \<and> m < mn) \<longrightarrow>
        (\<exists>msg. Inventory_init pid stock holding ucost mn mx = Inl (ValueError msg))"
    by (auto simp: Inventory_init_def)
qed


theorem reorder_frequency_soft_fallback_witness:
  "EOQAlgorithm_calculate_reorder_frequency 1000 100 = Inr 10
   \<and> EOQAlgorithm_calculate_reorder_frequency 1000 0 = Inr 0
   \<and> (\<exists>msg. EOQAlgorithm_calculate 1000 (-1) 2 = Inl (ValueError msg))
   \<and> (\<exists>msg. EOQAlgorithm_calculate_total_cost 1000 (-1) 2 0 = Inl (ValueError msg))
   \<and> (\<exists>msg. ReorderPointAlgorithm_calculate (-1) 5 20 = Inl (ValueError msg))
   \<and> (\<exists>msg. ReorderPointAlgorithm_calculate_from_annual 1000 5 20 0 = Inl (ValueError msg))
   \<and> (\<exists>msg. SafetyStockAlgorithm_calculate (-1) 5 5 = Inl (ValueError msg))
   \<and> (\<exists>msg. Demand_init ''P001'' (-1) 0 = Inl (ValueError msg))
   \<and> (\<exists>msg. Order_init ''P001'' (-1) 3 4 0 = Inl (ValueError msg))
   \<and> (\<exists>msg. Inventory_init ''P001'' (-1) 2 0 0 None = Inl (ValueError msg))
   \<and> (\<exists>msg. add_stock 0 \<lparr>product_id = ''P001'', current_stock = 10,
          holding_cost_per_unit = 2, unit_cost = 0, min_stock_level = 0,
          max_stock_level = None\<rparr>
        = (Inl (ValueError msg), \<lparr>product_id = ''P001'', current_stock = 10,
          holding_cost_per_unit = 2, unit_cost = 0, min_stock_level = 0,
          max_stock_level = None\<rparr>))
   \<and> (\<exists>msg. remove_stock 0 \<lparr>product_id = ''P001'', current_stock = 10,
          holding_cost_per_unit = 2, unit_cost = 0, min_stock_level = 0,
          max_stock_level = None\<rparr>
        = (Inl (ValueError msg), \<lparr>product_id = ''P001'', current_stock = 10,
          holding_cost_per_unit = 2, unit_cost = 0, min_stock_level = 0,
          max_stock_level = None\<rparr>))"
proof -
  note inst = reorder_frequency_soft_fallback [where D = 1000 and S = "-1" and H = 2
      and Q = 0 and d = "-1" and L = 5 and ss = 20 and w = 0 and z = "-1" and sd = 5
      and q = 0 and qty = "-1" and pid = "''P001''" and ts = 0 and cost = 3 and lead = 4
      and stock = "-1" and holding = 2 and ucost = 0 and mn = 0 and mx = None
      and self = "\<lparr>product_id = ''P001'', current_stock = 10,
          holding_cost_per_unit = 2, unit_cost = 0, min_stock_level = 0,
          max_stock_level = None\<rparr>"]
  from inst [where eoq = 100] inst [where eoq = 0] show ?thesis
    by simp
qed

section \<open>ABC classification\<close>

subsection \<open>Dictionary updates\<close>

lemma map_of_dict_setitem: "map_of (dict_setitem k v d) = (map_of d)(k \<mapsto> v)"
proof (induction d)
  case Nil
  show ?case by simp
next
  case (Cons x d)
  obtain k' v' where x: "x = (k', v')" by (cases x)
  show ?case
  proof (cases "k' = k")
    case True
    then show ?thesis unfolding x by (simp add: fun_eq_iff)
  next
    case False
    with Cons.IH show ?thesis unfolding x by (simp add: fun_eq_iff)
  qed
qed

lemma keys_dict_setitem: "fst ` set (dict_setitem k v d) = insert k (fst ` set d)"
proof (induction d)
  case Nil
  show ?case by simp
next
  case (Cons x d)
  obtain k' v' where x: "x = (k', v')" by (cases x)
  show ?case
  proof (cases "k' = k")
    case True
    then show ?thesis unfolding x by simp
  next
    case False
    with Cons.IH show ?thesis unfolding x by (simp add: insert_commute)
  qed
qed

lemma values_dict_setitem: "snd ` set (dict_setitem k v d) \<subseteq> insert v (snd ` set d)"
proof (induction d)
  case Nil
  show ?case by simp
next
  case (Cons x d)
  obtain k' v' where x: "x = (k', v')" by (cases x)
  show ?case
  proof (cases "k' = k")
    case True
    then show ?thesis unfolding x by auto
  next
    case False
    with Cons.IH show ?thesis unfolding x by auto
  qed
qed

lemma distinct_dict_setitem:
  "distinct (map fst d) \<Longrightarrow> distinct (map fst (dict_setitem k v d))"
proof (induction d)
  case Nil
  show ?case by simp
next
  case (Cons x d)
  obtain k' v' where x: "x = (k', v')" by (cases x)
  show ?case
  proof (cases "k' = k")
    case True
    with Cons.prems show ?thesis unfolding x by simp
  next
    case False
    with Cons show ?thesis unfolding x by (simp add: keys_dict_setitem)
  qed
qed

subsection \<open>The classification loop\<close>

text \<open>
  With a non-zero total the loop never raises: every iteration stores one category and
  moves on.
\<close>

lemma category_of_cases: "category_of x \<in> {''A'', ''B'', ''C''}"
  by (simp add: category_of_def)

lemma classify_loop_step:
  "tv \<noteq> 0 \<Longrightarrow>
   classify_loop tv ((p, v) # rest) cl cum =
     classify_loop tv rest (dict_setitem p (category_of (cum / tv * 100)) cl) (cum + v)"
  by (simp add: and_then_def py_truediv_def)

lemma classify_loop_zero:
  "s \<noteq> [] \<Longrightarrow> classify_loop 0 s cl cum = Inl ZeroDivisionError"
proof (cases s)
  case Nil
  assume "s \<noteq> []"
  with Nil show ?thesis by simp
next
  case (Cons x s')
  obtain p v where x: "x = (p, v)" by (cases x)
  show ?thesis unfolding Cons x by (simp add: and_then_def py_truediv_def)
qed

lemma classify_loop_returns:
  "tv \<noteq> 0 \<Longrightarrow> \<exists>cl'. classify_loop tv s cl cum = Inr cl'"
proof (induction s arbitrary: cl cum)
  case Nil
  show ?case by simp
next
  case (Cons x s)
  obtain p v where x: "x = (p, v)" by (cases x)
  have eq: "classify_loop tv (x # s) cl cum
      = classify_loop tv s (dict_setitem p (category_of (cum / tv * 100)) cl) (cum + v)"
    unfolding x by (rule classify_loop_step [OF Cons.prems])
  from Cons.IH [OF Cons.prems, of "dict_setitem p (category_of (cum / tv * 100)) cl" "cum + v"]
  show ?case unfolding eq .
qed

lemma classify_loop_keys:
  "tv \<noteq> 0 \<Longrightarrow> classify_loop tv s cl cum = Inr cl' \<Longrightarrow>
     fst ` set cl' = fst ` set cl \<union> fst ` set s"
proof (induction s arbitrary: cl cum)
  case Nil
  then show ?case by simp
next
  case (Cons x s)
  obtain p v where x: "x = (p, v)" by (cases x)
  have eq: "classify_loop tv (x # s) cl cum
      = classify_loop tv s (dict_setitem p (category_of (cum / tv * 100)) cl) (cum + v)"
    unfolding x by (rule classify_loop_step [OF Cons.prems(1)])
  note step = Cons.prems(2) [unfolded eq]
  from Cons.IH [OF Cons.prems(1) step] show ?case
    unfolding x by (simp add: keys_dict_setitem)
qed

lemma classify_loop_distinct:
  "tv \<noteq> 0 \<Longrightarrow> classify_loop tv s cl cum = Inr cl' \<Longrightarrow>
     distinct (map fst cl) \<Longrightarrow> distinct (map fst cl')"
proof (induction s arbitrary: cl cum)
  case Nil
  then show ?case by simp
next
  case (Cons x s)
  obtain p v where x: "x = (p, v)" by (cases x)
  have eq: "classify_loop tv (x # s) cl cum
      = classify_loop tv s (dict_setitem p (category_of (cum / tv * 100)) cl) (cum + v)"
    unfolding x by (rule classify_loop_step [OF Cons.prems(1)])
  note step = Cons.prems(2) [unfolded eq]
  from Cons.IH [OF Cons.prems(1) step] Cons.prems(3) show ?case
    by (simp add: distinct_dict_setitem)
qed

lemma classify_loop_values:
  "tv \<noteq> 0 \<Longrightarrow> classify_loop tv s cl cum = Inr cl' \<Longrightarrow>
     snd ` set cl \<subseteq> {''A'', ''B'', ''C''} \<Longrightarrow> snd ` set cl' \<subseteq> {''A'', ''B'', ''C''}"
proof (induction s arbitrary: cl cum)
  case Nil
  then show ?case by simp
next
  case (Cons x s)
  obtain p v where x: "x = (p, v)" by (cases x)
  define c where "c = category_of (cum / tv * 100)"
  have eq: "classify_loop tv (x # s) cl cum = classify_loop tv s (dict_setitem p c cl) (cum + v)"
    unfolding x c_def by (rule classify_loop_step [OF Cons.prems(1)])
  note step = Cons.prems(2) [unfolded eq]
  have "c \<in> {''A'', ''B'', ''C''}" unfolding c_def by (rule category_of_cases)
  from this Cons.prems(3) have "insert c (snd ` set cl) \<subseteq> {''A'', ''B'', ''C''}"
    by (rule insert_subsetI)
  with values_dict_setitem [of p c cl]
  have "snd ` set (dict_setitem p c cl) \<subseteq> {''A'', ''B'', ''C''}"
    by (rule subset_trans)
  from Cons.IH [OF Cons.prems(1) step this] show ?case .
qed

subsection \<open>Sorting by value\<close>

lemma sum_list_insort_key:
  "sum_list (map g (insort_key f x xs)) = g x + sum_list (map g xs)"
  for g :: "'a \<Rightarrow> real"
  by (induction xs) simp_all

lemma sum_list_sort_key:
  "sum_list (map g (sort_key f xs)) = sum_list (map g xs)"
  for g :: "'a \<Rightarrow> real"
  by (induction xs) (simp_all add: sum_list_insort_key)

lemma total_value_eq:
  "sum_list (map snd (sort_by_value_desc (item_values_of items)))
     = sum_list (map (\<lambda>(product_id, unit_cost, annual_demand). unit_cost * annual_demand) items)"
proof -
  have "map snd (item_values_of items)
      = map (\<lambda>(product_id, unit_cost, annual_demand). unit_cost * annual_demand) items"
    by (simp add: item_values_of_def split_def)
  then show ?thesis
    by (simp add: sort_by_value_desc_def sum_list_sort_key)
qed

lemma calculate_unfold:
  "items \<noteq> [] \<Longrightarrow>
   ABCAnalysisAlgorithm_calculate items =
     classify_loop (sum_list (map snd (sort_by_value_desc (item_values_of items))))
       (sort_by_value_desc (item_values_of items)) [] 0"
  by (simp add: ABCAnalysisAlgorithm_calculate_def Let_def)

lemma sorted_items_nonempty:
  "items \<noteq> [] \<Longrightarrow> sort_by_value_desc (item_values_of items) \<noteq> []"
proof -
  assume "items \<noteq> []"
  then have "length (sort_by_value_desc (item_values_of items)) \<noteq> 0"
    by (simp add: sort_by_value_desc_def item_values_of_def)
  then show ?thesis by (simp only: length_0_conv not_False_eq_True)
qed

lemma sorted_items_keys:
  "fst ` set (sort_by_value_desc (item_values_of items)) = fst ` set items"
  by (force simp: sort_by_value_desc_def item_values_of_def)

subsection \<open>Evaluation on concrete item lists\<close>

lemmas abc_eval = ABCAnalysisAlgorithm_calculate_def item_values_of_def sort_by_value_desc_def
  Let_def and_then_def py_truediv_def category_of_def

lemma abc_spec_example: "ABCAnalysisAlgorithm_calculate [(''P1'', 100, 1000), (''P2'', 10, 500), (''P3'', 5, 200)]
   = Inr [(''P1'', ''A''), (''P2'', ''B''), (''P3'', ''C'')]"
  by (simp add: abc_eval)

lemma abc_single_item: "u * d \<noteq> 0 \<Longrightarrow> ABCAnalysisAlgorithm_calculate [(p, u, d)] = Inr [(p, ''A'')]"
  by (simp add: abc_eval)

lemma sum_list_all_zero:
  "(\<forall>x\<in>set xs. g x = 0) \<Longrightarrow> sum_list (map g xs) = 0"
  for g :: "'a \<Rightarrow> real"
  by (induction xs) simp_all

subsection \<open>Zero total value\<close>

text \<open>
  Claim C10. On a non-empty item list in which every item has value
  \<open>unit_cost * annual_demand = 0\<close>, the total value is \<open>0\<close>, the first iteration of the
  classification loop divides by it, and \<open>ABCAnalysisAlgorithm.calculate\<close> raises
  \<open>ZeroDivisionError\<close> instead of returning a mapping.
\<close>

theorem abc_zero_total_raises:
  assumes "items \<noteq> []"
    and "\<forall>(product_id, unit_cost, annual_demand)\<in>set items. unit_cost * annual_demand = 0"
  shows "ABCAnalysisAlgorithm_calculate items = Inl ZeroDivisionError"
proof -
  let ?s = "sort_by_value_desc (item_values_of items)"
  from assms(2) have "\<forall>x\<in>set items. (\<lambda>(product_id, unit_cost, annual_demand).
      unit_cost * annual_demand) x = 0"
    by auto
  then have "sum_list (map (\<lambda>(product_id, unit_cost, annual_demand).
      unit_cost * annual_demand) items) = 0"
    by (rule sum_list_all_zero)
  then have zero: "sum_list (map snd ?s) = 0"
    by (simp only: total_value_eq)
  from assms(1) have "?s \<noteq> []" by (rule sorted_items_nonempty)
  then have "classify_loop 0 ?s [] 0 = Inl ZeroDivisionError"
    by (rule classify_loop_zero)
  with zero calculate_unfold [OF assms(1)] show ?thesis by simp
qed

theorem abc_zero_total_raises_witness:
  "ABCAnalysisAlgorithm_calculate [(''P1'', 0, 5), (''P2'', 3, 0)] = Inl ZeroDivisionError"
  using abc_zero_total_raises [of "[(''P1'', 0, 5), (''P2'', 3, 0)]"] by simp

subsection \<open>Sorting and classifying in the interpreter's arithmetic\<close>

text \<open>
  The sort keeps every item. When \<open><\<close> is asymmetric and negatively transitive on the
  values at hand (as it is on numbers that are not NaN), the result is descending and
  items whose values are tied, neither below the other, keep their input order.
\<close>

lemma set_insert_by_value_desc:
  "set (insert_by_value_desc ar x ys) = insert x (set ys)"
  by (induction ys) auto

lemma length_insert_by_value_desc:
  "length (insert_by_value_desc ar x ys) = Suc (length ys)"
  by (induction ys) simp_all

lemma sort_by_value_desc_in_Cons:
  "sort_by_value_desc_in ar (x # xs) = insert_by_value_desc ar x (sort_by_value_desc_in ar xs)"
  by (simp add: sort_by_value_desc_in_def)

lemma sort_by_value_desc_in_Nil: "sort_by_value_desc_in ar [] = []"
  by (simp add: sort_by_value_desc_in_def)

lemma set_sort_by_value_desc_in: "set (sort_by_value_desc_in ar xs) = set xs"
  by (induction xs)
    (simp_all add: sort_by_value_desc_in_Nil sort_by_value_desc_in_Cons set_insert_by_value_desc)

lemma length_sort_by_value_desc_in: "length (sort_by_value_desc_in ar xs) = length xs"
  by (induction xs)
    (simp_all add: sort_by_value_desc_in_Nil sort_by_value_desc_in_Cons
      length_insert_by_value_desc)

lemma sorted_insert_by_value_desc:
  assumes asym: "\<forall>a\<in>V. \<forall>b\<in>V. num_lt ar a b \<longrightarrow> \<not> num_lt ar b a"
    and ntrans: "\<forall>a\<in>V. \<forall>b\<in>V. \<forall>c\<in>V.
        \<not> num_lt ar a b \<and> \<not> num_lt ar b c \<longrightarrow> \<not> num_lt ar a c"
    and inV: "snd x \<in> V" "snd ` set ys \<subseteq> V"
    and sorted: "sorted_wrt (\<lambda>u w. \<not> num_lt ar (snd u) (snd w)) ys"
  shows "sorted_wrt (\<lambda>u w. \<not> num_lt ar (snd u) (snd w)) (insert_by_value_desc ar x ys)"
  using inV sorted
proof (induction ys)
  case Nil
  show ?case by simp
next
  case (Cons y ys)
  from Cons.prems have yV: "snd y \<in> V" and ysV: "snd ` set ys \<subseteq> V"
    and y_ys: "\<forall>w\<in>set ys. \<not> num_lt ar (snd y) (snd w)"
    and sorted_ys: "sorted_wrt (\<lambda>u w. \<not> num_lt ar (snd u) (snd w)) ys"
    by simp_all
  show ?case
  proof (cases "num_lt ar (snd x) (snd y)")
    case True
    with asym Cons.prems(1) yV have "\<not> num_lt ar (snd y) (snd x)" by blast
    with y_ys have "\<forall>w\<in>set (insert_by_value_desc ar x ys). \<not> num_lt ar (snd y) (snd w)"
      by (simp add: set_insert_by_value_desc)
    moreover from Cons.IH [OF Cons.prems(1) ysV sorted_ys]
    have "sorted_wrt (\<lambda>u w. \<not> num_lt ar (snd u) (snd w)) (insert_by_value_desc ar x ys)" .
    ultimately show ?thesis using True by simp
  next
    case False
    have "\<not> num_lt ar (snd x) (snd w)" if "w \<in> set ys" for w
    proof -
      from that ysV have wV: "snd w \<in> V" by blast
      from that y_ys have "\<not> num_lt ar (snd y) (snd w)" by blast
      with False ntrans Cons.prems(1) yV wV show ?thesis by blast
    qed
    with False y_ys sorted_ys show ?thesis by simp
  qed
qed

lemma sorted_sort_by_value_desc_in:
  assumes asym: "\<forall>a\<in>V. \<forall>b\<in>V. num_lt ar a b \<longrightarrow> \<not> num_lt ar b a"
    and ntrans: "\<forall>a\<in>V. \<forall>b\<in>V. \<forall>c\<in>V.
        \<not> num_lt ar a b \<and> \<not> num_lt ar b c \<longrightarrow> \<not> num_lt ar a c"
    and inV: "snd ` set xs \<subseteq> V"
  shows "sorted_wrt (\<lambda>u w. \<not> num_lt ar (snd u) (snd w)) (sort_by_value_desc_in ar xs)"
  using inV
proof (induction xs)
  case Nil
  show ?case by (simp add: sort_by_value_desc_in_Nil)
next
  case (Cons x xs)
  from Cons.prems have xV: "snd x \<in> V" and xsV: "snd ` set xs \<subseteq> V" by simp_all
  from xsV have sV: "snd ` set (sort_by_value_desc_in ar xs) \<subseteq> V"
    by (simp add: set_sort_by_value_desc_in)
  from sorted_insert_by_value_desc [OF asym ntrans xV sV Cons.IH [OF xsV]]
  show ?case by (simp add: sort_by_value_desc_in_Cons)
qed

lemma filter_insert_by_value_desc:
  assumes "P x \<Longrightarrow> \<forall>y\<in>set ys. P y \<longrightarrow> \<not> num_lt ar (snd x) (snd y)"
  shows "filter P (insert_by_value_desc ar x ys) = (if P x then x # filter P ys else filter P ys)"
  using assms
proof (induction ys)
  case Nil
  show ?case by simp
next
  case (Cons y ys)
  have IH: "filter P (insert_by_value_desc ar x ys)
      = (if P x then x # filter P ys else filter P ys)"
  proof (rule Cons.IH)
    assume "P x"
    from Cons.prems [OF this] show "\<forall>y\<in>set ys. P y \<longrightarrow> \<not> num_lt ar (snd x) (snd y)"
      by simp
  qed
  show ?case
  proof (cases "num_lt ar (snd x) (snd y)")
    case True
    have "\<not> P y" if "P x"
      using Cons.prems [OF that] True by auto
    with True IH show ?thesis by auto
  next
    case False
    then show ?thesis by simp
  qed
qed

lemma stable_sort_by_value_desc_in:
  assumes ntrans: "\<forall>a\<in>V. \<forall>b\<in>V. \<forall>c\<in>V.
        \<not> num_lt ar a b \<and> \<not> num_lt ar b c \<longrightarrow> \<not> num_lt ar a c"
    and inV: "snd ` set xs \<subseteq> V" and kV: "k \<in> V"
  shows "filter (\<lambda>x. \<not> num_lt ar (snd x) k \<and> \<not> num_lt ar k (snd x)) (sort_by_value_desc_in ar xs)
       = filter (\<lambda>x. \<not> num_lt ar (snd x) k \<and> \<not> num_lt ar k (snd x)) xs"
  using inV
proof (induction xs)
  case Nil
  show ?case by (simp add: sort_by_value_desc_in_Nil)
next
  case (Cons x xs)
  let ?P = "\<lambda>x. \<not> num_lt ar (snd x) k \<and> \<not> num_lt ar k (snd x)"
  from Cons.prems have xV: "snd x \<in> V" and xsV: "snd ` set xs \<subseteq> V" by simp_all
  have "\<forall>y\<in>set (sort_by_value_desc_in ar xs). ?P y \<longrightarrow> \<not> num_lt ar (snd x) (snd y)"
    if "?P x"
  proof (intro ballI impI)
    fix y assume y: "y \<in> set (sort_by_value_desc_in ar xs)" and Py: "?P y"
    from y xsV have yV: "snd y \<in> V" by (auto simp: set_sort_by_value_desc_in)
    from that Py ntrans xV kV yV show "\<not> num_lt ar (snd x) (snd y)" by blast
  qed
  from filter_insert_by_value_desc [of ?P x "sort_by_value_desc_in ar xs" ar, OF this]
    Cons.IH [OF xsV]
  show ?case by (simp add: sort_by_value_desc_in_Cons)
qed

text \<open>
  With a total that is not zero the loop never raises, and the category left for a
  product id is the one written at its last occurrence.
\<close>

lemma classify_loop_in_step:
  "\<not> num_is_zero ar tv \<Longrightarrow>
   classify_loop_in ar tv ((p, v) # rest) cl cum =
     classify_loop_in ar tv rest
       (dict_setitem p (category_in ar (num_mul ar (num_div ar cum tv) (num_lit ar 100))) cl)
       (num_add ar cum v)"
  by (simp add: and_then_def truediv_in_def)

lemma classify_loop_in_returns:
  "\<not> num_is_zero ar tv \<Longrightarrow> \<exists>cl'. classify_loop_in ar tv s cl cum = Inr cl'"
proof (induction s arbitrary: cl cum)
  case Nil
  show ?case by simp
next
  case (Cons x s)
  obtain p v where x: "x = (p, v)" by (cases x)
  define c where "c = category_in ar (num_mul ar (num_div ar cum tv) (num_lit ar 100))"
  have eq: "classify_loop_in ar tv (x # s) cl cum
      = classify_loop_in ar tv s (dict_setitem p c cl) (num_add ar cum v)"
    unfolding x c_def by (rule classify_loop_in_step [OF Cons.prems])
  from Cons.IH [OF Cons.prems, of "dict_setitem p c cl" "num_add ar cum v"]
  show ?case unfolding eq .
qed

lemma classify_loop_in_untouched:
  "\<not> num_is_zero ar tv \<Longrightarrow> classify_loop_in ar tv s cl cum = Inr cl' \<Longrightarrow>
     p \<notin> fst ` set s \<Longrightarrow> map_of cl' p = map_of cl p"
proof (induction s arbitrary: cl cum)
  case Nil
  then show ?case by simp
next
  case (Cons x s)
  obtain k v where x: "x = (k, v)" by (cases x)
  define c where "c = category_in ar (num_mul ar (num_div ar cum tv) (num_lit ar 100))"
  have eq: "classify_loop_in ar tv (x # s) cl cum
      = classify_loop_in ar tv s (dict_setitem k c cl) (num_add ar cum v)"
    unfolding x c_def by (rule classify_loop_in_step [OF Cons.prems(1)])
  note step = Cons.prems(2) [unfolded eq]
  from Cons.prems(3) have "p \<notin> fst ` set s" and "p \<noteq> k" unfolding x by auto
  from Cons.IH [OF Cons.prems(1) step this(1)] \<open>p \<noteq> k\<close> show ?case
    by (simp add: map_of_dict_setitem)
qed

lemma classify_loop_in_last_write:
  "\<not> num_is_zero ar tv \<Longrightarrow> classify_loop_in ar tv s cl cum = Inr cl' \<Longrightarrow> i < length s \<Longrightarrow>
     (\<forall>j. i < j \<and> j < length s \<longrightarrow> fst (s ! j) \<noteq> fst (s ! i)) \<Longrightarrow>
     map_of cl' (fst (s ! i))
       = Some (category_in ar
           (num_mul ar (num_div ar (foldl (num_add ar) cum (map snd (take i s))) tv)
              (num_lit ar 100)))"
proof (induction s arbitrary: cl cum i)
  case Nil
  then show ?case by simp
next
  case (Cons x s)
  obtain k v where x: "x = (k, v)" by (cases x)
  define c where "c = category_in ar (num_mul ar (num_div ar cum tv) (num_lit ar 100))"
  have eq: "classify_loop_in ar tv (x # s) cl cum
      = classify_loop_in ar tv s (dict_setitem k c cl) (num_add ar cum v)"
    unfolding x c_def by (rule classify_loop_in_step [OF Cons.prems(1)])
  note step = Cons.prems(2) [unfolded eq]
  show ?case
  proof (cases i)
    case 0
    have "k \<notin> fst ` set s"
    proof
      assume "k \<in> fst ` set s"
      then obtain j where j: "j < length s" "fst (s ! j) = k"
        by (auto simp: in_set_conv_nth)
      with Cons.prems(4) [rule_format, of "Suc j"] 0 x show False by simp
    qed
    from classify_loop_in_untouched [OF Cons.prems(1) step this] 0 x show ?thesis
      by (simp add: map_of_dict_setitem c_def)
  next
    case (Suc i')
    with Cons.prems(3) have i': "i' < length s" by simp
    have later: "\<forall>j. i' < j \<and> j < length s \<longrightarrow> fst (s ! j) \<noteq> fst (s ! i')"
    proof (intro allI impI)
      fix j assume "i' < j \<and> j < length s"
      with Cons.prems(4) [rule_format, of "Suc j"] Suc show "fst (s ! j) \<noteq> fst (s ! i')"
        by simp
    qed
    from Cons.IH [OF Cons.prems(1) step i' later] Suc x show ?thesis
      by simp
  qed
qed

lemma calculate_in_unfold:
  "items \<noteq> [] \<Longrightarrow>
   ABCAnalysisAlgorithm_calculate_in ar items =
     classify_loop_in ar
       (num_sum ar (map snd (sort_by_value_desc_in ar (item_values_in ar items))))
       (sort_by_value_desc_in ar (item_values_in ar items)) [] (num_lit ar 0)"
  by (simp add: ABCAnalysisAlgorithm_calculate_in_def Let_def)

text \<open>At exact arithmetic the routine is the one over the reals.\<close>

lemma insert_by_value_desc_exact:
  "insert_by_value_desc exact_arithmetic x ys = insort_key (\<lambda>x. - snd x) x ys"
  by (induction ys) (auto simp: exact_arithmetic_def)

lemma sort_by_value_desc_in_exact:
  "sort_by_value_desc_in exact_arithmetic xs = sort_by_value_desc xs"
  by (induction xs)
    (simp_all add: sort_by_value_desc_in_Nil sort_by_value_desc_in_Cons sort_by_value_desc_def
      insert_by_value_desc_exact)

lemma classify_loop_in_exact:
  "classify_loop_in exact_arithmetic tv s cl cum = classify_loop tv s cl cum"
proof (induction s arbitrary: cl cum)
  case Nil
  show ?case by simp
next
  case (Cons x s)
  obtain p v where x: "x = (p, v)" by (cases x)
  have cat: "category_in exact_arithmetic q = category_of q" for q
    by (simp add: category_in_def category_of_def exact_arithmetic_def)
  show ?case
  proof (cases "tv = 0")
    case True
    then show ?thesis unfolding x
      by (simp add: and_then_def truediv_in_def py_truediv_def exact_arithmetic_def)
  next
    case False
    have "classify_loop_in exact_arithmetic tv ((p, v) # s) cl cum
        = classify_loop_in exact_arithmetic tv s
            (dict_setitem p (category_of (cum / tv * 100)) cl) (cum + v)"
      using False
      by (simp add: and_then_def truediv_in_def cat) (simp add: exact_arithmetic_def)
    also have "\<dots> = classify_loop tv s (dict_setitem p (category_of (cum / tv * 100)) cl) (cum + v)"
      by (rule Cons.IH)
    also have "\<dots> = classify_loop tv ((p, v) # s) cl cum"
      using False by (simp add: and_then_def py_truediv_def)
    finally show ?thesis unfolding x .
  qed
qed

lemma calculate_in_exact:
  "ABCAnalysisAlgorithm_calculate_in exact_arithmetic items = ABCAnalysisAlgorithm_calculate items"
proof -
  have "item_values_in exact_arithmetic items = item_values_of items"
    by (simp add: item_values_in_def item_values_of_def exact_arithmetic_def)
  moreover have "num_lit exact_arithmetic 0 = (0::real)"
    by (simp add: exact_arithmetic_def)
  moreover have "num_sum exact_arithmetic = (sum_list :: real list \<Rightarrow> real)"
    by (simp add: exact_arithmetic_def)
  ultimately show ?thesis
    by (simp add: ABCAnalysisAlgorithm_calculate_in_def ABCAnalysisAlgorithm_calculate_def
        sort_by_value_desc_in_exact classify_loop_in_exact Let_def)
qed

subsection \<open>Classification by cumulative percentage\<close>

text \<open>
  Claim C1, as stated, fails on two inputs. Two items with the same product id: the
  first item in sorted order is written \<open>A\<close>, and the later item with the same id
  overwrites it with \<open>C\<close>. A single item of value \<open>0\<close>: the call raises
  \<open>ZeroDivisionError\<close> and classifies nothing. All numbers involved are small integers,
  on which the interpreter's arithmetic is exact.
\<close>

theorem abc_classification_counterexample:
  "ABCAnalysisAlgorithm_calculate [(''P1'', 100, 1), (''P1'', 1, 1)] = Inr [(''P1'', ''C'')]
   \<and> ABCAnalysisAlgorithm_calculate [(''P1'', 0, 5)] = Inl ZeroDivisionError
   \<and> ABCAnalysisAlgorithm_calculate_in exact_arithmetic [(''P1'', 100, 1), (''P1'', 1, 1)]
       = Inr [(''P1'', ''C'')]
   \<and> ABCAnalysisAlgorithm_calculate_in exact_arithmetic [(''P1'', 0, 5)]
       = Inl ZeroDivisionError"
  by (simp add: calculate_in_exact abc_eval)

text \<open>
  Claim C1, amended. Take any arithmetic whose \<open><\<close> is asymmetric and negatively
  transitive on the item values, and a non-empty item list whose total value, as \<open>sum\<close>
  returns it, is not zero. The values are the products \<open>unit_cost * annual_demand\<close>; the
  items are sorted by value, descending, tied values in input order; the call returns a
  mapping in which every item whose product id does not occur again later in sorted
  order has the category of the percentage \<open>(cumulative_value / total_value) * 100\<close>,
  computed in that arithmetic from the values added before its own (\<open>< 80\<close> gives \<open>A\<close>,
  \<open>< 95\<close> gives \<open>B\<close>, otherwise \<open>C\<close>). In particular the first item in sorted order
  (so the only item of a single-item list) is \<open>A\<close> when its id does not occur again and
  \<open>(0 / total_value) * 100 < 80\<close> holds in that arithmetic.
\<close>

theorem abc_classification:
  fixes ar :: "'n arithmetic"
  assumes "items \<noteq> []"
    and "\<forall>a\<in>snd ` set (item_values_in ar items). \<forall>b\<in>snd ` set (item_values_in ar items).
           num_lt ar a b \<longrightarrow> \<not> num_lt ar b a"
    and "\<forall>a\<in>snd ` set (item_values_in ar items). \<forall>b\<in>snd ` set (item_values_in ar items).
         \<forall>c\<in>snd ` set (item_values_in ar items).
           \<not> num_lt ar a b \<and> \<not> num_lt ar b c \<longrightarrow> \<not> num_lt ar a c"
    and "\<not> num_is_zero ar
           (num_sum ar (map snd (sort_by_value_desc_in ar (item_values_in ar items))))"
  shows "let s = sort_by_value_desc_in ar (item_values_in ar items);
             total_value = num_sum ar (map snd s)
         in map fst (item_values_in ar items) = map fst items
          \<and> map snd (item_values_in ar items)
              = map (\<lambda>(product_id, unit_cost, annual_demand).
                       num_mul ar unit_cost annual_demand) items
          \<and> length s = length items
          \<and> set s = set (item_values_in ar items)
          \<and> (\<forall>k\<in>snd ` set (item_values_in ar items).
                filter (\<lambda>x. \<not> num_lt ar (snd x) k \<and> \<not> num_lt ar k (snd x)) s
                  = filter (\<lambda>x. \<not> num_lt ar (snd x) k \<and> \<not> num_lt ar k (snd x))
                      (item_values_in ar items))
          \<and> (\<forall>i j. i \<le> j \<and> j < length s \<longrightarrow> \<not> num_lt ar (snd (s ! i)) (snd (s ! j)))
          \<and> (\<exists>classification.
                ABCAnalysisAlgorithm_calculate_in ar items = Inr classification
                \<and> (\<forall>i<length s. (\<forall>j. i < j \<and> j < length s \<longrightarrow> fst (s ! j) \<noteq> fst (s ! i)) \<longrightarrow>
                      map_of classification (fst (s ! i))
                        = Some (let percent =
                                      num_mul ar
                                        (num_div ar (foldl (num_add ar) (num_lit ar 0) (map snd (take i s))) total_value)
                                        (num_lit ar 100)
                                in if num_lt ar percent (num_lit ar 80) then ''A''
                                   else if num_lt ar percent (num_lit ar 95) then ''B''
                                   else ''C''))
                \<and> ((\<forall>j. 0 < j \<and> j < length s \<longrightarrow> fst (s ! j) \<noteq> fst (s ! 0))
                     \<and> num_lt ar
                          (num_mul ar (num_div ar (num_lit ar 0) total_value) (num_lit ar 100))
                          (num_lit ar 80) \<longrightarrow>
                      map_of classification (fst (s ! 0)) = Some ''A''))"
proof -
  define iv where "iv = item_values_in ar items"
  define V where "V = snd ` set iv"
  define s where "s = sort_by_value_desc_in ar iv"
  define tv where "tv = num_sum ar (map snd s)"
  note asym = assms(2) [folded iv_def V_def]
  note ntrans = assms(3) [folded iv_def V_def]
  from assms(4) have tv: "\<not> num_is_zero ar tv" by (simp add: tv_def s_def iv_def)
  have ivV: "snd ` set iv \<subseteq> V" by (simp add: V_def)
  have len: "length s = length items"
    by (simp add: s_def iv_def length_sort_by_value_desc_in item_values_in_def)
  from assms(1) len have pos: "0 < length s" by simp
  have sets: "set s = set iv"
    by (simp add: s_def set_sort_by_value_desc_in)
  have fsts: "map fst iv = map fst items"
    by (simp add: iv_def item_values_in_def split_def)
  have snds: "map snd iv
      = map (\<lambda>(product_id, unit_cost, annual_demand). num_mul ar unit_cost annual_demand) items"
    by (simp add: iv_def item_values_in_def split_def)
  have stable: "\<forall>k\<in>V.
      filter (\<lambda>x. \<not> num_lt ar (snd x) k \<and> \<not> num_lt ar k (snd x)) s
        = filter (\<lambda>x. \<not> num_lt ar (snd x) k \<and> \<not> num_lt ar k (snd x)) iv"
    unfolding s_def using stable_sort_by_value_desc_in [OF ntrans ivV] by blast
  have sorted: "sorted_wrt (\<lambda>u w. \<not> num_lt ar (snd u) (snd w)) s"
    unfolding s_def by (rule sorted_sort_by_value_desc_in [OF asym ntrans ivV])
  have desc: "\<not> num_lt ar (snd (s ! i)) (snd (s ! j))" if "i \<le> j \<and> j < length s" for i j
  proof (cases "i = j")
    case True
    from that have "s ! j \<in> set s" by simp
    with sets have "snd (s ! j) \<in> V" by (simp add: V_def)
    with asym True show ?thesis by blast
  next
    case False
    with that have "i < j" "j < length s" by simp_all
    with sorted show ?thesis by (simp add: sorted_wrt_iff_nth_less)
  qed
  have run: "ABCAnalysisAlgorithm_calculate_in ar items = classify_loop_in ar tv s [] (num_lit ar 0)"
    unfolding tv_def s_def iv_def by (rule calculate_in_unfold [OF assms(1)])
  from classify_loop_in_returns [OF tv, of s "[]" "num_lit ar 0"] obtain cl where
    cl: "classify_loop_in ar tv s [] (num_lit ar 0) = Inr cl" by blast
  have each: "map_of cl (fst (s ! i))
      = Some (let percent = num_mul ar (num_div ar (foldl (num_add ar) (num_lit ar 0) (map snd (take i s))) tv)
                              (num_lit ar 100)
              in if num_lt ar percent (num_lit ar 80) then ''A''
                 else if num_lt ar percent (num_lit ar 95) then ''B'' else ''C'')"
    if "i < length s" "\<forall>j. i < j \<and> j < length s \<longrightarrow> fst (s ! j) \<noteq> fst (s ! i)" for i
    using classify_loop_in_last_write [OF tv cl that]
    by (simp add: category_in_def Let_def)
  have first: "map_of cl (fst (s ! 0)) = Some ''A''"
    if "(\<forall>j. 0 < j \<and> j < length s \<longrightarrow> fst (s ! j) \<noteq> fst (s ! 0))
        \<and> num_lt ar (num_mul ar (num_div ar (num_lit ar 0) tv) (num_lit ar 100)) (num_lit ar 80)"
  proof -
    from that have later: "\<forall>j. 0 < j \<and> j < length s \<longrightarrow> fst (s ! j) \<noteq> fst (s ! 0)"
      and below: "num_lt ar (num_mul ar (num_div ar (num_lit ar 0) tv) (num_lit ar 100))
        (num_lit ar 80)"
      by simp_all
    from each [OF pos later] below show ?thesis
      by (simp add: Let_def)
  qed
  from run cl each first have
    "\<exists>classification.
        ABCAnalysisAlgorithm_calculate_in ar items = Inr classification
        \<and> (\<forall>i<length s. (\<forall>j. i < j \<and> j < length s \<longrightarrow> fst (s ! j) \<noteq> fst (s ! i)) \<longrightarrow>
              map_of classification (fst (s ! i))
                = Some (let percent =
                              num_mul ar (num_div ar (foldl (num_add ar) (num_lit ar 0) (map snd (take i s))) tv)
                                (num_lit ar 100)
                        in if num_lt ar percent (num_lit ar 80) then ''A''
                           else if num_lt ar percent (num_lit ar 95) then ''B''
                           else ''C''))
        \<and> ((\<forall>j. 0 < j \<and> j < length s \<longrightarrow> fst (s ! j) \<noteq> fst (s ! 0))
             \<and> num_lt ar (num_mul ar (num_div ar (num_lit ar 0) tv) (num_lit ar 100))
                  (num_lit ar 80) \<longrightarrow>
              map_of classification (fst (s ! 0)) = Some ''A'')"
    by (intro exI [of _ cl] conjI allI impI) simp_all
  with fsts snds len sets stable desc show ?thesis
    unfolding Let_def s_def [symmetric] tv_def [symmetric] iv_def [symmetric] V_def [symmetric]
    by (intro conjI) blast+
qed

theorem abc_classification_witness:
  "sort_by_value_desc_in exact_arithmetic
       (item_values_in exact_arithmetic [(''P2'', 3, 2), (''P1'', 5, 4), (''P3'', 2, 3)])
     = [(''P1'', 20), (''P2'', 6), (''P3'', 6)]
   \<and> \<not> num_is_zero exact_arithmetic
         (num_sum exact_arithmetic (map snd (sort_by_value_desc_in exact_arithmetic
            (item_values_in exact_arithmetic [(''P2'', 3, 2), (''P1'', 5, 4), (''P3'', 2, 3)]))))
   \<and> (\<exists>classification.
         ABCAnalysisAlgorithm_calculate_in exact_arithmetic
             [(''P2'', 3, 2), (''P1'', 5, 4), (''P3'', 2, 3)]
           = Inr classification
         \<and> map_of classification ''P1'' = Some ''A''
         \<and> map_of classification ''P2'' = Some ''A''
         \<and> map_of classification ''P3'' = Some ''B'')"
proof -
  let ?X = "[(''P2'', 3, 2), (''P1'', 5, 4), (''P3'', 2, 3)] :: (string \<times> real \<times> real) list"
  let ?s = "[(''P1'', 20), (''P2'', 6), (''P3'', 6)] :: (string \<times> real) list"
  let ?E = exact_arithmetic
  have iv: "item_values_in ?E ?X = [(''P2'', 6), (''P1'', 20), (''P3'', 6)]"
    by (simp add: item_values_in_def exact_arithmetic_def)
  have s: "sort_by_value_desc_in ?E (item_values_in ?E ?X) = ?s"
    unfolding iv by (simp add: sort_by_value_desc_in_def exact_arithmetic_def)
  have ne: "?X \<noteq> []" by simp
  have asym: "\<forall>a\<in>snd ` set (item_values_in ?E ?X). \<forall>b\<in>snd ` set (item_values_in ?E ?X).
      num_lt ?E a b \<longrightarrow> \<not> num_lt ?E b a"
    unfolding iv by (simp add: exact_arithmetic_def)
  have ntrans: "\<forall>a\<in>snd ` set (item_values_in ?E ?X). \<forall>b\<in>snd ` set (item_values_in ?E ?X).
      \<forall>c\<in>snd ` set (item_values_in ?E ?X).
        \<not> num_lt ?E a b \<and> \<not> num_lt ?E b c \<longrightarrow> \<not> num_lt ?E a c"
    unfolding iv by (simp add: exact_arithmetic_def)
  have tv: "\<not> num_is_zero ?E (num_sum ?E (map snd (sort_by_value_desc_in ?E (item_values_in ?E ?X))))"
    unfolding s by (simp add: exact_arithmetic_def)
  from abc_classification [OF ne asym ntrans tv] obtain cl where
    run: "ABCAnalysisAlgorithm_calculate_in ?E ?X = Inr cl"
    and each: "\<forall>i<length ?s. (\<forall>j. i < j \<and> j < length ?s \<longrightarrow> fst (?s ! j) \<noteq> fst (?s ! i)) \<longrightarrow>
        map_of cl (fst (?s ! i))
          = Some (let percent = num_mul ?E
                      (num_div ?E (foldl (num_add ?E) (num_lit ?E 0) (map snd (take i ?s)))
                         (num_sum ?E (map snd ?s)))
                      (num_lit ?E 100)
                  in if num_lt ?E percent (num_lit ?E 80) then ''A''
                     else if num_lt ?E percent (num_lit ?E 95) then ''B'' else ''C'')"
    unfolding s Let_def by blast
  have later: "\<forall>j. i < j \<and> j < length ?s \<longrightarrow> fst (?s ! j) \<noteq> fst (?s ! i)"
    if "i < 3" for i
    using that by (auto simp: less_Suc_eq numeral_3_eq_3)
  have "map_of cl ''P1'' = Some ''A''"
    using each [rule_format, of 0] later [of 0]
    by (simp add: exact_arithmetic_def)
  moreover have "map_of cl ''P2'' = Some ''A''"
    using each [rule_format, of 1] later [of 1]
    by (simp add: exact_arithmetic_def)
  moreover have "map_of cl ''P3'' = Some ''B''"
    using each [rule_format, of 2] later [of 2]
    by (simp add: exact_arithmetic_def numeral_2_eq_2)
  ultimately show ?thesis using tv s run by blast
qed

subsection \<open>Shape of the returned mapping\<close>

text \<open>
  Claim C3, as stated, fails on two inputs. Three items of which two share a product id:
  the mapping has two entries, not three. A single item of value \<open>0\<close>: the call
  raises \<open>ZeroDivisionError\<close> and returns no mapping.
\<close>

theorem abc_mapping_shape_counterexample:
  "ABCAnalysisAlgorithm_calculate [(''P1'', 5, 4), (''P2'', 3, 2), (''P1'', 1, 1)]
     = Inr [(''P1'', ''C''), (''P2'', ''A'')]
   \<and> ABCAnalysisAlgorithm_calculate [(''P1'', 0, 0)] = Inl ZeroDivisionError"
  by (simp add: abc_eval)

text \<open>
  Claim C3, amended. The empty list gives the empty mapping and no error. For a
  non-empty item list whose total value is not \<open>0\<close> the call returns a mapping whose
  values are all among \<open>A\<close>, \<open>B\<close>, \<open>C\<close>, with exactly one entry per distinct product id
  of the input, so as many entries as items when the ids are pairwise distinct. A single
  item of non-zero value is \<open>A\<close>, and the items \<open>(P1, 100, 1000)\<close>, \<open>(P2, 10, 500)\<close>,
  \<open>(P3, 5, 200)\<close> give \<open>P1 \<mapsto> A\<close>, \<open>P2 \<mapsto> B\<close>, \<open>P3 \<mapsto> C\<close>.
\<close>

theorem abc_mapping_shape:
  "ABCAnalysisAlgorithm_calculate [] = Inr []
   \<and> (items \<noteq> []
        \<and> sum_list (map (\<lambda>(product_id, unit_cost, annual_demand). unit_cost * annual_demand)
             items) \<noteq> 0 \<longrightarrow>
      (\<exists>classification. ABCAnalysisAlgorithm_calculate items = Inr classification
         \<and> snd ` set classification \<subseteq> {''A'', ''B'', ''C''}
         \<and> distinct (map fst classification)
         \<and> fst ` set classification = fst ` set items
         \<and> length classification = card (fst ` set items)
         \<and> (distinct (map fst items) \<longrightarrow> length classification = length items)))
   \<and> (u * d \<noteq> 0 \<longrightarrow> ABCAnalysisAlgorithm_calculate [(p, u, d)] = Inr [(p, ''A'')])
   \<and> ABCAnalysisAlgorithm_calculate [(''P1'', 100, 1000), (''P2'', 10, 500), (''P3'', 5, 200)]
        = Inr [(''P1'', ''A''), (''P2'', ''B''), (''P3'', ''C'')]"
proof (intro conjI impI)
  show "ABCAnalysisAlgorithm_calculate [] = Inr []"
    by (simp add: ABCAnalysisAlgorithm_calculate_def)
next
  assume hyp: "items \<noteq> []
        \<and> sum_list (map (\<lambda>(product_id, unit_cost, annual_demand). unit_cost * annual_demand)
             items) \<noteq> 0"
  define s where "s = sort_by_value_desc (item_values_of items)"
  define tv where "tv = sum_list (map snd s)"
  from hyp have ne: "items \<noteq> []" and tv: "tv \<noteq> 0"
    by (simp_all add: tv_def s_def total_value_eq)
  have run: "ABCAnalysisAlgorithm_calculate items = classify_loop tv s [] 0"
    unfolding tv_def s_def by (rule calculate_unfold [OF ne])
  from classify_loop_returns [OF tv, of s "[]" 0] obtain cl where
    cl: "classify_loop tv s [] 0 = Inr cl" by blast
  have vals: "snd ` set cl \<subseteq> {''A'', ''B'', ''C''}"
    by (rule classify_loop_values [OF tv cl]) simp
  have dist: "distinct (map fst cl)"
    by (rule classify_loop_distinct [OF tv cl]) simp
  have "fst ` set cl = fst ` set s"
    using classify_loop_keys [OF tv cl] by simp
  then have keys: "fst ` set cl = fst ` set items"
    by (simp add: s_def sorted_items_keys)
  have "card (set (map fst cl)) = length (map fst cl)"
    using dist by (rule distinct_card)
  with keys have len: "length cl = card (fst ` set items)" by simp
  have len': "length cl = length items" if "distinct (map fst items)"
  proof -
    from that have "card (set (map fst items)) = length (map fst items)"
      by (rule distinct_card)
    with len show ?thesis by simp
  qed
  from run cl vals dist keys len len'
  show "\<exists>classification. ABCAnalysisAlgorithm_calculate items = Inr classification
         \<and> snd ` set classification \<subseteq> {''A'', ''B'', ''C''}
         \<and> distinct (map fst classification)
         \<and> fst ` set classification = fst ` set items
         \<and> length classification = card (fst ` set items)
         \<and> (distinct (map fst items) \<longrightarrow> length classification = length items)"
    by (intro exI [of _ cl] conjI impI) simp_all
next
  assume "u * d \<noteq> 0"
  then show "ABCAnalysisAlgorithm_calculate [(p, u, d)] = Inr [(p, ''A'')]"
    by (rule abc_single_item)
next
  show "ABCAnalysisAlgorithm_calculate [(''P1'', 100, 1000), (''P2'', 10, 500), (''P3'', 5, 200)]
        = Inr [(''P1'', ''A''), (''P2'', ''B''), (''P3'', ''C'')]"
    by (rule abc_spec_example)
qed

theorem abc_mapping_shape_witness:
  "(\<exists>classification.
       ABCAnalysisAlgorithm_calculate [(''P1'', 1000, 100), (''P2'', 500, 50)] = Inr classification
       \<and> snd ` set classification \<subseteq> {''A'', ''B'', ''C''}
       \<and> distinct (map fst classification)
       \<and> fst ` set classification = {''P1'', ''P2''}
       \<and> length classification = 2)
   \<and> ABCAnalysisAlgorithm_calculate [(''P1'', 100, 1000)] = Inr [(''P1'', ''A'')]"
  using abc_mapping_shape [where items = "[(''P1'', 1000, 100), (''P2'', 500, 50)]"
      and u = 100 and d = 1000 and p = "''P1''"]
  by (simp add: numeral_2_eq_2)

end
